theory Spec2Isabelle
  imports Main "HOL-Library.Sublist"
begin

section \<open>The runs database, the file system and the command line\<close>

text \<open>
  A shallow embedding of \<^verbatim>\<open>bin/ajax\<close>, the cleaning tool of the event builders.

  A data document (one element of \<^verbatim>\<open>rd["data"]\<close>) is a dictionary. The keys ajax reads
  or writes are the fields of \<open>ddoc\<close>; a key that may be missing is an option, and
  \<^verbatim>\<open>"by"\<close> is spelled \<open>deleted_by\<close>. A run document carries the fields that ajax's
  queries look at; \<^verbatim>\<open>"_id"\<close> is \<open>doc_id\<close>, \<^verbatim>\<open>"bootstrax.state"\<close> is
  \<open>bootstrax_state\<close>, and so on. Times are seconds on one clock.
\<close>

record ddoc =
  type :: string
  host :: "string option"
  location :: "string option"
  meta :: "string option"
  protocol :: "string option"
  at :: "int option"
  deleted_by :: "string option"
  reason :: "string option"

record rundoc =
  doc_id :: nat
  number :: nat
  bootstrax_state :: string
  bootstrax_time :: int
  bootstrax_host :: string
  status :: string
  start :: int
  data :: "ddoc list"
  deleted_data :: "ddoc list"

text \<open>The exceptions of the Python code, as values. The string is the fixed part of the message.\<close>

datatype error =
    ValueError string
  | KeyError string
  | NameError string
  | TypeError string
  | FileNotFoundError string
  | NotImplementedError string
  | EOFError
  | KeyboardInterrupt
  | SystemExit
  | OtherException string

datatype priority = Info | Warning | Error | Fatal

text \<open>
  What ajax does besides touching the file system and the runs database is kept as a trace:
  a line of the logger, a call of \<^verbatim>\<open>log_warning\<close> (which also reports to the DAQ log
  collection), a call of \<^verbatim>\<open>set_state\<close>, a \<^verbatim>\<open>time.sleep\<close>, a started delete thread
  with the exception that ended it (if any), and a call of \<^verbatim>\<open>wait_on_delete_thread\<close>.
\<close>

datatype event =
    Log priority string
  | Report priority string "string option"
  | SetState string
  | Sleep int
  | ThreadStarted string
  | ThreadDied error
  | WaitOnDeleteThread

text \<open>
  The command line flags (\<^verbatim>\<open>args\<close>) together with the module's globals that are fixed at start:
  the host name and the four folders imported from \<^verbatim>\<open>straxen.daq_core\<close> (their values are
  not part of this repository's sources, so they are parameters here).
\<close>

record args =
  production :: bool
  ask_confirm :: bool
  force :: bool
  hostname :: string
  ceph_folder :: string
  output_folder :: string
  pre_folder :: string
  non_registered_folder :: string

text \<open>
  The world: the paths that exist on disk, the runs collection in its natural order, the clock,
  the lines still to be read from standard input (already lower-cased and stripped), and the
  trace.
\<close>

record world =
  fs :: "string list"
  run_coll :: "rundoc list"
  clock :: int
  stdin :: "string list"
  events :: "event list"

definition eb_can_clean_ceph :: string where
  "eb_can_clean_ceph = ''eb0.xenon.local''"

definition remove_live_after :: int where
  "remove_live_after = 24 * 3600"

definition wait_after_processing :: int where
  "wait_after_processing = 12 * 3600"

definition remove_high_level_data :: int where
  "remove_high_level_data = 365 * 24 * 3600"

definition nap_time :: int where
  "nap_time = 3600"

definition short_nap :: int where
  "short_nap = 5"

subsection \<open>Helper functions\<close>

definition now :: "world \<Rightarrow> int \<Rightarrow> int" where
  "now w secs = clock w + secs"

definition emit :: "event \<Rightarrow> world \<Rightarrow> world" where
  "emit e w = w\<lparr>events := events w @ [e]\<rparr>"

definition time_sleep :: "int \<Rightarrow> world \<Rightarrow> world" where
  "time_sleep n w = w\<lparr>clock := clock w + n, events := events w @ [Sleep n]\<rparr>"

definition log_warning :: "string \<Rightarrow> priority \<Rightarrow> string option \<Rightarrow> world \<Rightarrow> world" where
  "log_warning message prio run_id w = emit (Report prio message run_id) w"

definition set_state :: "string \<Rightarrow> world \<Rightarrow> world" where
  "set_state state w = emit (SetState state) w"

definition wait_on_delete_thread :: "world \<Rightarrow> world" where
  "wait_on_delete_thread w = emit WaitOnDeleteThread w"

text \<open>
  The disk is the list of the paths on it; a path exists when it is listed or something below
  it is. \<^verbatim>\<open>shutil.rmtree\<close> removes a path and all below it.
\<close>

definition under :: "string \<Rightarrow> string \<Rightarrow> bool" where
  "under p q = (q = p \<or> prefix (p @ ''/'') q)"

definition path_exists :: "world \<Rightarrow> string \<Rightarrow> bool" where
  "path_exists w p = list_ex (under p) (fs w)"

definition shutil_rmtree :: "string \<Rightarrow> world \<Rightarrow> (error + unit) \<times> world" where
  "shutil_rmtree p w =
     (if path_exists w p then (Inr (), w\<lparr>fs := filter (\<lambda>q. \<not> under p q) (fs w)\<rparr>)
      else (Inl (FileNotFoundError p), w))"

text \<open>\<^verbatim>\<open>"%06d" % number\<close> and \<^verbatim>\<open>f'{number:06}'\<close>.\<close>

fun dec :: "nat \<Rightarrow> string" where
  "dec n = (if n < 10 then [''0123456789'' ! n] else dec (n div 10) @ [''0123456789'' ! (n mod 10)])"

declare dec.simps [simp del]

definition run_id_of :: "nat \<Rightarrow> string" where
  "run_id_of n = replicate (6 - length (dec n)) (CHR ''0'') @ dec n"

text \<open>
  \<^verbatim>\<open>confirm\<close>: without \<^verbatim>\<open>--ask_confirm\<close> it is \<^verbatim>\<open>True\<close>. Otherwise it reads a line; on anything
  but y or n it calls itself and then falls off its end, so it returns \<^verbatim>\<open>None\<close>, which its
  callers take as no. Reading past the end of the input is an \<^verbatim>\<open>EOFError\<close>.
\<close>

fun confirm_input :: "string list \<Rightarrow> (error + bool) \<times> string list" where
  "confirm_input [] = (Inl EOFError, [])"
| "confirm_input (a # rest) =
     (if a = ''y'' \<or> a = ''n'' then (Inr (a = ''y''), rest)
      else (case confirm_input rest of
              (Inl e, r) \<Rightarrow> (Inl e, r)
            | (Inr _, r) \<Rightarrow> (Inr False, r)))"

definition confirm :: "args \<Rightarrow> world \<Rightarrow> (error + bool) \<times> world" where
  "confirm a w =
     (if \<not> ask_confirm a then (Inr True, w)
      else (case confirm_input (stdin w) of (r, rest) \<Rightarrow> (r, w\<lparr>stdin := rest\<rparr>)))"

text \<open>\<^verbatim>\<open>check_rundoc_for_live_and_raw\<close>: the loop with its two counters.\<close>

fun count_live_raw :: "ddoc list \<Rightarrow> nat \<Rightarrow> nat \<Rightarrow> nat \<times> nat" where
  "count_live_raw [] n_live_data n_raw_records = (n_live_data, n_raw_records)"
| "count_live_raw (dd # dds) n_live_data n_raw_records =
     count_live_raw dds
       (if type dd = ''live'' then n_live_data + 1 else n_live_data)
       (if type dd = ''raw_records'' then n_raw_records + 1 else n_raw_records)"

definition check_rundoc_for_live_and_raw :: "rundoc \<Rightarrow> nat \<times> nat" where
  "check_rundoc_for_live_and_raw rd = count_live_raw (data rd) 0 0"

subsection \<open>Core functions\<close>

text \<open>\<^verbatim>\<open>_rmtree\<close>, the wrapper every deletion goes through.\<close>

definition ajax_rmtree :: "args \<Rightarrow> string \<Rightarrow> world \<Rightarrow> (error + unit) \<times> world" where
  "ajax_rmtree a path w =
     (if production a then
        (case confirm a w of
           (Inl e, w1) \<Rightarrow> (Inl e, w1)
         | (Inr ok, w1) \<Rightarrow> if ok then shutil_rmtree path w1 else (Inr (), w1))
      else
        (let w1 = emit (Log Info ''TESTING: shutil.rmtree'') w in
         if \<not> path_exists w1 path then (Inl (ValueError ''does not exist''), w1)
         else (Inr (), w1)))"

text \<open>
  The first part of \<^verbatim>\<open>delete_data\<close> (lines 526 to 537): the check that this is not an essential
  copy of the data.
\<close>

definition essential_copy :: string where
  "essential_copy = ''This might be an essential copy of the data!''"

definition low_data_check ::
  "rundoc \<Rightarrow> string \<Rightarrow> bool \<Rightarrow> bool \<Rightarrow> world \<Rightarrow> (error + unit) \<times> world" where
  "low_data_check rd data_type test ignore_low_data_check w =
     (if \<not> ignore_low_data_check then
        (case check_rundoc_for_live_and_raw rd of
           (n_live, n_rr) \<Rightarrow>
             if \<not> (n_live \<noteq> 0 \<or> n_rr \<ge> 1 + (if sublist ''raw_records'' data_type then 1 else 0))
             then
               (let w1 = log_warning essential_copy Fatal (Some (run_id_of (number rd))) w in
                if \<not> test then (Inl (ValueError essential_copy), w1) else (Inr (), w1))
             else (Inr (), w))
      else (Inr (), w))"

text \<open>
  The loop \<^verbatim>\<open>for ddoc in rd["data"]: if ...: break\<close> of \<^verbatim>\<open>delete_data\<close>, as the index at which
  \<^verbatim>\<open>ddoc\<close> stands after it. Python keeps the loop variable: when no element matches it is
  the last element, and when the list is empty the name is unbound. \<^verbatim>\<open>ddoc["host"]\<close> is
  only read when the type matches.
\<close>

fun locate_ddoc :: "string \<Rightarrow> string \<Rightarrow> ddoc list \<Rightarrow> nat \<Rightarrow> error + nat" where
  "locate_ddoc data_type hn [] i =
     (if i = 0 then Inl (NameError ''ddoc'') else Inr (i - 1))"
| "locate_ddoc data_type hn (ddoc # rest) i =
     (if type ddoc = data_type then
        (case host ddoc of
           None \<Rightarrow> Inl (KeyError ''host'')
         | Some h \<Rightarrow> if h = ''daq'' \<or> h = hn then Inr i
                     else locate_ddoc data_type hn rest (Suc i))
      else locate_ddoc data_type hn rest (Suc i))"

text \<open>The document that goes to \<^verbatim>\<open>deleted_data\<close>: three keys popped, three keys set.\<close>

definition mark_deleted :: "args \<Rightarrow> string \<Rightarrow> int \<Rightarrow> ddoc \<Rightarrow> ddoc" where
  "mark_deleted a rsn t ddoc =
     ddoc\<lparr>location := None, meta := None, protocol := None,
          at := Some t, deleted_by := Some (''ajax.'' @ hostname a), reason := Some rsn\<rparr>"

text \<open>
  \<^verbatim>\<open>run_coll.update_one({"_id": ...}, {"$addToSet": ..., "$pull": ...})\<close>: one update of the first
  document with that id. \<^verbatim>\<open>$pull\<close> removes every element of \<^verbatim>\<open>data\<close> with the type and a host
  among daq and this host; \<^verbatim>\<open>$addToSet\<close> appends the document unless an equal one is there.
\<close>

definition pulled :: "string \<Rightarrow> string \<Rightarrow> ddoc \<Rightarrow> bool" where
  "pulled data_type hn d = (type d = data_type \<and> (host d = Some ''daq'' \<or> host d = Some hn))"

definition add_to_set :: "ddoc \<Rightarrow> ddoc list \<Rightarrow> ddoc list" where
  "add_to_set d ds = (if d \<in> set ds then ds else ds @ [d])"

definition pull_and_add :: "string \<Rightarrow> string \<Rightarrow> ddoc \<Rightarrow> rundoc \<Rightarrow> rundoc" where
  "pull_and_add data_type hn ddoc doc =
     doc\<lparr>deleted_data := add_to_set ddoc (deleted_data doc),
         data := filter (\<lambda>d. \<not> pulled data_type hn d) (data doc)\<rparr>"

fun update_one :: "nat \<Rightarrow> (rundoc \<Rightarrow> rundoc) \<Rightarrow> rundoc list \<Rightarrow> rundoc list" where
  "update_one i f [] = []"
| "update_one i f (doc # docs) =
     (if doc_id doc = i then f doc # docs else doc # update_one i f docs)"

text \<open>
  \<^verbatim>\<open>delete_data\<close>, in the three parts it is written in. The second part (lines 539 to 545)
  removes the path from disk.
\<close>

definition delete_from_disk :: "args \<Rightarrow> string \<Rightarrow> bool \<Rightarrow> world \<Rightarrow> (error + unit) \<times> world" where
  "delete_from_disk a path test w =
     (if path_exists w path then
        (let w1 = emit (Log Info ''Deleting data'') w in
         case (if \<not> test then ajax_rmtree a path w1 else (Inr (), w1)) of
           (Inl e, w2) \<Rightarrow> (Inl e, w2)
         | (Inr u, w2) \<Rightarrow> (Inr (), emit (Log Info ''deleting finished'') w2))
      else (Inr (), emit (Log Info ''There is no data! Just doing the rundoc.'') w))"

text \<open>
  The third part (lines 547 to 571) moves the data location from the run document to its
  \<^verbatim>\<open>deleted_data\<close>. It changes \<^verbatim>\<open>rd\<close> in place (the element of \<^verbatim>\<open>rd["data"]\<close> it found),
  so the run document the caller holds is returned next to the world.
\<close>

definition change_rundoc ::
  "args \<Rightarrow> rundoc \<Rightarrow> string \<Rightarrow> string \<Rightarrow> bool \<Rightarrow> string \<Rightarrow> world
     \<Rightarrow> (error + unit) \<times> rundoc \<times> world" where
  "change_rundoc a rd path data_type test rsn w =
     (if \<not> path_exists w path then
        (case locate_ddoc data_type (hostname a) (data rd) 0 of
           Inl e \<Rightarrow> (Inl e, rd, emit (Log Info ''changing data field in rundoc'') w)
         | Inr i \<Rightarrow>
             (let w1 = emit (Log Info ''changing data field in rundoc'') w;
                  ddoc = mark_deleted a rsn (now w1 0) (data rd ! i);
                  rd' = rd\<lparr>data := (data rd)[i := ddoc]\<rparr>
              in if production a \<and> \<not> test then
                   (case confirm a w1 of
                      (Inl e, w2) \<Rightarrow> (Inl e, rd', w2)
                    | (Inr ok, w2) \<Rightarrow>
                        if ok then
                          (Inr (), rd',
                           w2\<lparr>run_coll :=
                                update_one (doc_id rd)
                                  (pull_and_add data_type (hostname a) ddoc) (run_coll w2)\<rparr>)
                        else (Inr (), rd', w2))
                 else (Inr (), rd', emit (Log Info ''Update ddoc'') w1)))
      else if \<not> test \<and> \<not> ask_confirm a then
        (Inl (ValueError ''Something went wrong we wanted to delete''), rd, w)
      else (Inr (), rd, w))"

definition delete_data ::
  "args \<Rightarrow> rundoc \<Rightarrow> string \<Rightarrow> string \<Rightarrow> bool \<Rightarrow> bool \<Rightarrow> string \<Rightarrow> world
     \<Rightarrow> (error + unit) \<times> rundoc \<times> world" where
  "delete_data a rd path data_type test ignore_low_data_check rsn w =
     (case low_data_check rd data_type test ignore_low_data_check w of
        (Inl e, w1) \<Rightarrow> (Inl e, rd, w1)
      | (Inr u, w1) \<Rightarrow>
          (case delete_from_disk a path test w1 of
             (Inl e, w2) \<Rightarrow> (Inl e, rd, w2)
           | (Inr u, w2) \<Rightarrow> change_rundoc a rd path data_type test rsn w2))"

subsection \<open>Queries on the runs collection\<close>

text \<open>
  \<^verbatim>\<open>find_one\<close> gives the first document that matches, \<^verbatim>\<open>find\<close> all of them. A condition on
  \<^verbatim>\<open>"data.host"\<close> or \<^verbatim>\<open>"data.type"\<close> holds when some element of \<^verbatim>\<open>data\<close> satisfies it.
\<close>

definition find_one :: "(rundoc \<Rightarrow> bool) \<Rightarrow> world \<Rightarrow> rundoc option" where
  "find_one query w = List.find query (run_coll w)"

definition find_all :: "(rundoc \<Rightarrow> bool) \<Rightarrow> world \<Rightarrow> rundoc list" where
  "find_all query w = filter query (run_coll w)"

definition has_data_host :: "string \<Rightarrow> rundoc \<Rightarrow> bool" where
  "has_data_host h rd = list_ex (\<lambda>d. host d = Some h) (data rd)"

definition has_data_type :: "string \<Rightarrow> rundoc \<Rightarrow> bool" where
  "has_data_type t rd = list_ex (\<lambda>d. type d = t) (data rd)"

definition ceph_query :: "world \<Rightarrow> rundoc \<Rightarrow> bool" where
  "ceph_query w rd =
     (bootstrax_state rd = ''done'' \<and> status rd = ''transferred'' \<and>
      start rd < now w (- remove_live_after) \<and>
      bootstrax_time rd < now w (- wait_after_processing) \<and>
      has_data_type ''live'' rd)"

definition number_on_host_query :: "nat \<Rightarrow> string \<Rightarrow> rundoc \<Rightarrow> bool" where
  "number_on_host_query n h rd = (number rd = n \<and> has_data_host h rd)"

definition abandoned_query :: "args \<Rightarrow> rundoc \<Rightarrow> bool" where
  "abandoned_query a rd = (bootstrax_state rd = ''abandoned'' \<and> has_data_host (hostname a) rd)"

definition abandoned_live_query :: "world \<Rightarrow> rundoc \<Rightarrow> bool" where
  "abandoned_live_query w rd =
     (bootstrax_state rd = ''abandoned'' \<and>
      bootstrax_time rd < now w (- wait_after_processing) \<and>
      list_ex (\<lambda>d. location d = Some ''/live_data/xenonnt'') (data rd) \<and>
      has_data_host ''daq'' rd)"

definition non_latest_query :: "args \<Rightarrow> world \<Rightarrow> rundoc \<Rightarrow> bool" where
  "non_latest_query a w rd =
     (bootstrax_state rd = ''done'' \<and> status rd = ''transferred'' \<and>
      bootstrax_time rd < now w (- wait_after_processing) \<and>
      bootstrax_host rd \<noteq> hostname a \<and> has_data_host (hostname a) rd)"

subsection \<open>Deleting in a thread\<close>

definition thread_prefix :: string where
  "thread_prefix = ''ajax_delete''"

definition last_component :: "string \<Rightarrow> string" where
  "last_component p = rev (takeWhile (\<lambda>c. c \<noteq> CHR ''/'') (rev p))"

definition path_join :: "string \<Rightarrow> string \<Rightarrow> string" where
  "path_join p q =
     (if q \<noteq> [] \<and> hd q = CHR ''/'' then q
      else if p = [] \<or> last p = CHR ''/'' then p @ q
      else p @ ''/'' @ q)"

text \<open>
  \<^verbatim>\<open>threaded_delete_data\<close> starts a daemon thread that runs \<open>delete_data\<close>. Here the thread
  runs to its end where it is started; an exception ends the thread only, and the caller goes
  on. (Every caller of ajax that needs the result calls \<^verbatim>\<open>wait_on_delete_thread\<close> before it
  looks at the runs collection again.)
\<close>

definition threaded_delete_data ::
  "args \<Rightarrow> rundoc \<Rightarrow> string \<Rightarrow> string \<Rightarrow> bool \<Rightarrow> bool \<Rightarrow> string \<Rightarrow> world \<Rightarrow> rundoc \<times> world" where
  "threaded_delete_data a rd path dtype test ignore_low_data_check rsn w =
     (case delete_data a rd path dtype test ignore_low_data_check rsn
             (emit (ThreadStarted (thread_prefix @ last_component path)) w) of
        (Inl e, rd', w') \<Rightarrow> (rd', emit (ThreadDied e) w')
      | (Inr u, rd', w') \<Rightarrow> (rd', w'))"

subsection \<open>Removing one run from a host\<close>

text \<open>
  A \<^verbatim>\<open>for\<close> loop whose body may raise: the elements are visited in order, and the first
  exception ends the loop.
\<close>

fun for_each :: "('i \<Rightarrow> 's \<Rightarrow> (error + unit) \<times> 's) \<Rightarrow> 'i list \<Rightarrow> 's \<Rightarrow> (error + unit) \<times> 's" where
  "for_each body [] s = (Inr (), s)"
| "for_each body (x # xs) s =
     (case body x s of
        (Inl e, s') \<Rightarrow> (Inl e, s')
      | (Inr u, s') \<Rightarrow> for_each body xs s')"

text \<open>
  The body of the loop of \<^verbatim>\<open>remove_run_from_host\<close> over \<^verbatim>\<open>rd["data"]\<close>, for the element at
  index \<open>i\<close>: \<open>delete_data\<close> changes elements of the list in place, and the loop reads
  each element when it reaches it.
\<close>

definition remove_run_step ::
  "args \<Rightarrow> nat \<Rightarrow> bool \<Rightarrow> bool \<Rightarrow> string \<Rightarrow> nat \<Rightarrow> nat \<Rightarrow> nat \<Rightarrow> rundoc \<times> world
     \<Rightarrow> (error + unit) \<times> rundoc \<times> world" where
  "remove_run_step a n delete_live frc rsn have_live_data have_raw_records i s =
     (case s of (rd, w) \<Rightarrow>
      let ddoc = data rd ! i in
      if host ddoc = Some (hostname a) then
        (if delete_live then (Inr (), rd, w)
         else
           (case location ddoc of
              None \<Rightarrow> (Inl (KeyError ''location''), rd, w)
            | Some loc \<Rightarrow>
                if \<not> frc \<and> have_live_data = 0 \<and> sublist ''raw_records'' (type ddoc) then
                  (Inr (), rd,
                   emit (Log Info ''prevent from being deleted. The live_data has already been removed'') w)
                else
                  (case delete_data a rd loc (type ddoc) (\<not> production a) frc rsn
                          (emit (Log Info ''delete data at'') w) of
                     (Inl e, rd1, w1) \<Rightarrow> (Inl e, rd1, w1)
                   | (Inr u, rd1, w1) \<Rightarrow>
                       if path_exists w1 (loc @ ''_temp'') then
                         delete_data a rd1 (loc @ ''_temp'') (type ddoc) (\<not> production a)
                           frc rsn (emit (Log Info ''delete data at'') w1)
                       else (Inr (), rd1, w1))))
      else if host ddoc = Some ''daq'' then
        (case location ddoc of
           None \<Rightarrow> (Inl (KeyError ''location''), rd, w)
         | Some l \<Rightarrow>
             if \<not> delete_live then
               (Inr (), rd,
                emit (Log Info ''prevent from being deleted. Do so with --delete_live'') w)
             else
               (let loc = path_join l (run_id_of n) in
                if \<not> frc \<and> have_raw_records = 0 then
                  (Inr (), rd,
                   log_warning ''Unsafe to delete, no raw_records registered. Force with --force''
                     Info None w)
                else if \<not> frc \<and> have_raw_records \<noteq> 0 then
                  (Inr (),
                   threaded_delete_data a rd loc (type ddoc) (\<not> production a) False rsn
                     (emit (Log Info ''Deleting since we have raw_records registered.'') w))
                else
                  (Inr (),
                   threaded_delete_data a rd loc (type ddoc) (\<not> production a) True rsn
                     (emit (Log Info ''Forcefully delete, but no raw_records registered!'') w))))
      else (Inr (), rd, w))"

definition remove_run_from_host ::
  "args \<Rightarrow> nat \<Rightarrow> bool \<Rightarrow> bool \<Rightarrow> string \<Rightarrow> world \<Rightarrow> (error + unit) \<times> world" where
  "remove_run_from_host a n delete_live frc rsn w =
     (case find_one (number_on_host_query n (if \<not> delete_live then hostname a else ''daq'')) w of
        None \<Rightarrow>
          (Inr (), log_warning ''No registered data'' Info (Some (run_id_of n)) w)
      | Some rd \<Rightarrow>
          (case check_rundoc_for_live_and_raw rd of
             (have_live_data, have_raw_records) \<Rightarrow>
               (case for_each
                       (remove_run_step a n delete_live frc rsn have_live_data have_raw_records)
                       [0..<length (data rd)] (rd, w) of
                  (r, rd', w') \<Rightarrow> (r, w'))))"

subsection \<open>The cleaning modes\<close>

text \<open>
  \<^verbatim>\<open>clean_ceph\<close> calls itself after every run it handled in production. The first argument
  bounds the depth of these calls: when it is used up the function has not returned
  (\<open>None\<close>).
\<close>

definition removing_run :: event where
  "removing_run = Log Info ''remove data associated to run''"

fun clean_ceph :: "nat \<Rightarrow> args \<Rightarrow> world \<Rightarrow> ((error + unit) \<times> world) option" where
  "clean_ceph 0 a w = None"
| "clean_ceph (Suc depth) a w =
     (let w0 = set_state ''clean_ceph'' w in
      if \<not> hostname a = eb_can_clean_ceph then
        Some (Inr (), emit (Log Info ''for cleaning ceph, go to eb_can_clean_ceph'') w0)
      else
        (case find_one (ceph_query w0) w0 of
           None \<Rightarrow> Some (Inr (), w0)
         | Some rd \<Rightarrow>
             (case remove_run_from_host a (number rd) True (force a) ''clean ceph''
                     (emit removing_run w0) of
                (Inl e, w1) \<Rightarrow> Some (Inl e, w1)
              | (Inr u, w1) \<Rightarrow>
                  (let w2 = time_sleep short_nap (emit (Log Info ''finished, take a nap'') w1) in
                   if production a then clean_ceph depth a (wait_on_delete_thread w2)
                   else Some (Inr (), w2)))))"

text \<open>\<^verbatim>\<open>clean_high_level_data\<close> raises right after \<^verbatim>\<open>set_state\<close>; the rest of its body is never reached.\<close>

definition high_level_query :: "args \<Rightarrow> world \<Rightarrow> rundoc \<Rightarrow> bool" where
  \<comment> \<open>the query of the part that is never reached (lines 199 to 204)\<close>
  "high_level_query a w rd =
     (bootstrax_state rd = ''done'' \<and> status rd = ''transferred'' \<and>
      start rd < now w (- remove_high_level_data) \<and> has_data_host (hostname a) rd)"

definition clean_high_level_data :: "args \<Rightarrow> world \<Rightarrow> (error + unit) \<times> world" where
  "clean_high_level_data a w =
     (Inl (NotImplementedError
             ''This is a drastic measure that we do not intend using at the time of writing''),
      set_state ''clean_high_level_data'' w)"

text \<open>\<^verbatim>\<open>clean_abandoned\<close>: the loop over at most \<open>i_max\<close> runs, and the function that calls itself.\<close>

fun abandoned_loop ::
  "args \<Rightarrow> bool \<Rightarrow> rundoc list \<Rightarrow> nat \<Rightarrow> nat \<Rightarrow> world \<Rightarrow> (error + nat) \<times> world" where
  "abandoned_loop a delete_live [] i i_max w = (Inr i, w)"
| "abandoned_loop a delete_live (rd # rds) i i_max w =
     (if i \<ge> i_max then (Inr i, w)
      else
        (case remove_run_from_host a (number rd) delete_live True ''run abandonned''
                (emit (Log Info ''clean_abandoned: remove data associated to run'') w) of
           (Inl e, w1) \<Rightarrow> (Inl e, w1)
         | (Inr u, w1) \<Rightarrow> abandoned_loop a delete_live rds (i + 1) i_max w1))"

fun clean_abandoned :: "nat \<Rightarrow> bool \<Rightarrow> args \<Rightarrow> world \<Rightarrow> ((error + unit) \<times> world) option" where
  "clean_abandoned 0 delete_live a w = None"
| "clean_abandoned (Suc depth) delete_live a w =
     (let w0 = set_state ''clean_abandoned'' w in
      case (if \<not> delete_live then
              (case find_one (abandoned_query a) w0 of None \<Rightarrow> None | Some rd \<Rightarrow> Some [rd])
            else Some (find_all (abandoned_live_query w0) w0)) of
        None \<Rightarrow> Some (Inr (), emit (Log Info ''clean_abandoned: No more matches in rundoc'') w0)
      | Some rds \<Rightarrow>
          (case abandoned_loop a delete_live rds 0 (if ask_confirm a then 1 else 5) w0 of
             (Inl e, w1) \<Rightarrow> Some (Inl e, w1)
           | (Inr i, w1) \<Rightarrow>
               if i = 0 then
                 Some (Inr (),
                       emit (Log Info ''clean_abandoned: No more live_data matches in rundoc'') w1)
               else if production a then
                 clean_abandoned depth delete_live a
                   (if delete_live then wait_on_delete_thread w1 else w1)
               else Some (Inr (), w1)))"

text \<open>
  \<^verbatim>\<open>clean_non_latest\<close>: the body of the inner loop over the data of one run, the check for raw
  records on another host, and the loop over the runs, which a run without such raw records
  ends (\<^verbatim>\<open>break\<close>).
\<close>

definition non_latest_step ::
  "args \<Rightarrow> nat \<Rightarrow> rundoc \<times> world \<Rightarrow> (error + unit) \<times> rundoc \<times> world" where
  "non_latest_step a i s =
     (case s of (rd, w) \<Rightarrow>
      let ddoc = data rd ! i in
      if host ddoc = Some (hostname a) then
        (case location ddoc of
           None \<Rightarrow> (Inl (KeyError ''location''), rd, w)
         | Some loc \<Rightarrow>
             delete_data a rd (if path_exists w loc then loc else loc @ ''_temp'')
               (type ddoc) (\<not> production a) False ''non latest''
               (emit (Log Info ''clean_non_latest: delete data at'') w))
      else (Inr (), rd, w))"

fun raw_records_elsewhere :: "string \<Rightarrow> ddoc list \<Rightarrow> error + bool" where
  "raw_records_elsewhere hn [] = Inr False"
| "raw_records_elsewhere hn (dd # dds) =
     (if type dd = ''raw_records'' then
        (case host dd of
           None \<Rightarrow> Inl (KeyError ''host'')
         | Some h \<Rightarrow> if h \<noteq> hn then Inr True else raw_records_elsewhere hn dds)
      else raw_records_elsewhere hn dds)"

fun non_latest_loop :: "args \<Rightarrow> rundoc list \<Rightarrow> world \<Rightarrow> (error + unit) \<times> world" where
  "non_latest_loop a [] w = (Inr (), w)"
| "non_latest_loop a (rd # rds) w =
     (case raw_records_elsewhere (hostname a) (data rd) of
        Inl e \<Rightarrow> (Inl e, w)
      | Inr have_raw_records \<Rightarrow>
          if \<not> have_raw_records then (Inr (), w)
          else
            (case for_each (non_latest_step a) [0..<length (data rd)] (rd, w) of
               (Inl e, rd', w1) \<Rightarrow> (Inl e, w1)
             | (Inr u, rd', w1) \<Rightarrow> non_latest_loop a rds w1))"

definition clean_non_latest :: "args \<Rightarrow> world \<Rightarrow> (error + unit) \<times> world" where
  "clean_non_latest a w =
     (let w0 = set_state ''clean_non_latest'' w in
      non_latest_loop a (find_all (non_latest_query a w0) w0) w0)"

subsection \<open>Data that is not in the runs database\<close>

text \<open>
  \<^verbatim>\<open>os.listdir\<close>: the names directly below a folder. \<^verbatim>\<open>shutil.move\<close>: into the destination when
  that is an existing folder, else to the destination. \<^verbatim>\<open>int(run_id)\<close> for a string of digits.
\<close>

definition child_name :: "string \<Rightarrow> string \<Rightarrow> string option" where
  "child_name base q =
     (let pre = (if base \<noteq> [] \<and> last base = CHR ''/'' then base else base @ ''/'') in
      if prefix pre q \<and> length pre < length q
      then Some (takeWhile (\<lambda>c. c \<noteq> CHR ''/'') (drop (length pre) q))
      else None)"

definition os_listdir :: "string \<Rightarrow> world \<Rightarrow> error + string list" where
  "os_listdir base w =
     (if \<not> path_exists w base then Inl (FileNotFoundError base)
      else Inr (remdups (List.map_filter (child_name base) (fs w))))"

definition shutil_move :: "string \<Rightarrow> string \<Rightarrow> world \<Rightarrow> (error + unit) \<times> world" where
  "shutil_move src dst w =
     (if \<not> path_exists w src then (Inl (FileNotFoundError src), w)
      else
        (let real_dst = (if path_exists w dst then path_join dst (last_component src) else dst) in
         if path_exists w dst \<and> path_exists w real_dst then
           (Inl (OtherException ''Destination path already exists''), w)
         else
           (Inr (),
            w\<lparr>fs := map (\<lambda>q. if under src q then real_dst @ drop (length src) q else q) (fs w)\<rparr>)))"

fun digits_value :: "string \<Rightarrow> nat \<Rightarrow> nat option" where
  "digits_value [] acc = Some acc"
| "digits_value (c # cs) acc =
     (if c \<in> set ''0123456789''
      then digits_value cs (10 * acc + (of_char c - 48))
      else None)"

definition int_of_run_id :: "string \<Rightarrow> error + nat" where
  "int_of_run_id s =
     (case (if s = [] then None else digits_value s 0) of
        None \<Rightarrow> Inl (ValueError ''invalid literal for int()'')
      | Some n \<Rightarrow> Inr n)"

text \<open>
  The body of the loop of \<^verbatim>\<open>_remove_unregistered_run\<close> over the folders; the state is the flag
  \<^verbatim>\<open>deleted_data\<close> and the world. \<^verbatim>\<open>find_one\<close> gives \<^verbatim>\<open>None\<close> when no run has the number, and
  \<^verbatim>\<open>check_rundoc_for_live_and_raw(None)\<close> is a \<^verbatim>\<open>TypeError\<close>.
\<close>

definition unregistered_step ::
  "args \<Rightarrow> string \<Rightarrow> string \<Rightarrow> string \<Rightarrow> bool \<times> world \<Rightarrow> (error + unit) \<times> bool \<times> world" where
  "unregistered_step a base_folder run_id folder s =
     (case s of (deleted, w) \<Rightarrow>
      if sublist run_id folder then
        (case int_of_run_id run_id of
           Inl e \<Rightarrow> (Inl e, deleted, w)
         | Inr n \<Rightarrow>
             (case find_one (\<lambda>rd. number rd = n) w of
                None \<Rightarrow> (Inl (TypeError ''NoneType object is not subscriptable''), deleted, w)
              | Some rd \<Rightarrow>
                  (case check_rundoc_for_live_and_raw rd of
                     (n_live, n_rr) \<Rightarrow>
                       if \<not> (n_live \<noteq> 0
                               \<or> n_rr \<ge> 1 + (if sublist ''raw_records'' folder then 1 else 0))
                       then
                         (Inl (ValueError essential_copy), deleted,
                          log_warning essential_copy Fatal (Some run_id) w)
                       else if production a then
                         (case confirm a w of
                            (Inl e, w1) \<Rightarrow> (Inl e, deleted, w1)
                          | (Inr ok, w1) \<Rightarrow>
                              if ok then
                                (case shutil_move (path_join base_folder folder)
                                        (path_join (non_registered_folder a) folder) w1 of
                                   (Inl e, w2) \<Rightarrow> (Inl e, deleted, w2)
                                 | (Inr u, w2) \<Rightarrow> (Inr (), True, w2))
                              else (Inr (), True, w1))
                       else (Inr (), True, emit (Log Info ''TEST moving'') w))))
      else (Inr (), deleted, w))"

definition remove_unregistered_run ::
  "args \<Rightarrow> string \<Rightarrow> string \<Rightarrow> bool \<Rightarrow> world \<Rightarrow> (error + unit) \<times> world" where
  "remove_unregistered_run a base_folder run_id checked_db w =
     (if \<not> checked_db then
        (Inl (ValueError ''Only insert runs where for it is checked that it is not registered''),
         log_warning ''rogue ajax operations!'' Fatal (Some run_id) w)
      else
        (let w1 = log_warning ''No data found! Double checking'' Warning (Some run_id) w in
         case os_listdir base_folder w1 of
           Inl e \<Rightarrow> (Inl e, w1)
         | Inr folders \<Rightarrow>
             (case for_each (unregistered_step a base_folder run_id) folders (False, w1) of
                (Inl e, deleted, w2) \<Rightarrow> (Inl e, w2)
              | (Inr u, deleted, w2) \<Rightarrow>
                  if \<not> deleted then
                    (Inl (FileNotFoundError ''No data registered''),
                     log_warning ''No data registered'' Fatal None w2)
                  else (Inr (), w2))))"

definition not_registered :: string where
  "not_registered = ''run is NOT registered in the runDB but is stored on this host''"

definition remove_if_unregistered ::
  "args \<Rightarrow> nat \<Rightarrow> bool \<Rightarrow> string \<Rightarrow> world \<Rightarrow> (error + unit) \<times> world" where
  "remove_if_unregistered a n delete_live clean_from w =
     (let rd = find_one (number_on_host_query n (if \<not> delete_live then hostname a else ''daq'')) w;
          run_id = run_id_of n
      in if (case rd of
               None \<Rightarrow> False
             | Some d \<Rightarrow>
                 list_ex (\<lambda>ddoc. prefix clean_from (case location ddoc of None \<Rightarrow> [] | Some l \<Rightarrow> l))
                   (data d))
         then (Inr (), w)
         else
           (let w1 = log_warning not_registered Error (Some run_id) w in
            if \<not> delete_live then remove_unregistered_run a clean_from run_id True w1
            else remove_unregistered_run a (ceph_folder a) run_id True w1))"

subsection \<open>The main loop\<close>

text \<open>
  The loop of \<^verbatim>\<open>main_ajax\<close> for \<^verbatim>\<open>--clean all\<close>, with the cleaning modes it runs in its
  \<^verbatim>\<open>try\<close> block as the parameter \<open>body\<close>: what the two \<^verbatim>\<open>except\<close> clauses do does not
  depend on which statement raised. The first argument bounds the number of rounds; a daemon
  that is still running when it is used up gives \<open>None\<close>.
\<close>

fun stops_ajax :: "error \<Rightarrow> bool" where
  "stops_ajax KeyboardInterrupt = True"
| "stops_ajax SystemExit = True"
| "stops_ajax (NotImplementedError m) = True"
| "stops_ajax e = False"

definition restart_after :: "world \<Rightarrow> world" where
  "restart_after w =
     emit (Log Warning ''Restarting main loop'')
       (time_sleep 60
          (log_warning ''Fatal warning: ran into'' Error None
             (emit (Log Error ''Fatal warning: ran into. Try logging error and restart ajax'') w)))"

fun main_loop ::
  "nat \<Rightarrow> (world \<Rightarrow> ((error + unit) \<times> world) option) \<Rightarrow> args \<Rightarrow> world
     \<Rightarrow> ((error + unit) \<times> world) option" where
  "main_loop 0 body a w = None"
| "main_loop (Suc rounds) body a w =
     (case body w of
        None \<Rightarrow> None
      | Some (Inr u, w1) \<Rightarrow>
          if \<not> production a then Some (Inr (), w1)
          else main_loop rounds body a
                 (time_sleep nap_time (emit (Log Info ''Loop finished, take a nap'') w1))
      | Some (Inl e, w1) \<Rightarrow>
          if stops_ajax e then
            Some (Inl e,
                  wait_on_delete_thread
                    (emit (Log Info ''Stopping, wait a second for the delete threads'') w1))
          else main_loop rounds body a (restart_after w1))"

text \<open>The body of the loop: the modes in the order of the source, each stopping at the first exception.\<close>

definition cleaning_sequence :: "nat \<Rightarrow> args \<Rightarrow> world \<Rightarrow> ((error + unit) \<times> world) option" where
  "cleaning_sequence depth a w =
     (case (if hostname a = eb_can_clean_ceph then
              (case clean_ceph depth a w of
                 None \<Rightarrow> None
               | Some (Inl e, w1) \<Rightarrow> Some (Inl e, w1)
               | Some (Inr u, w1) \<Rightarrow> clean_abandoned depth True a w1)
            else Some (Inr (), w)) of
        None \<Rightarrow> None
      | Some (Inl e, w2) \<Rightarrow> Some (Inl e, w2)
      | Some (Inr u, w2) \<Rightarrow>
          (case clean_abandoned depth False a w2 of
             None \<Rightarrow> None
           | Some (Inl e, w3) \<Rightarrow> Some (Inl e, w3)
           | Some (Inr u, w3) \<Rightarrow> Some (clean_non_latest a w3)))"

definition main_ajax_all :: "nat \<Rightarrow> nat \<Rightarrow> args \<Rightarrow> world \<Rightarrow> ((error + unit) \<times> world) option" where
  "main_ajax_all rounds depth a w = main_loop rounds (cleaning_sequence depth a) a w"

subsection \<open>What is observed of a world\<close>

text \<open>
  Two worlds have the same store when the disk and the runs collection are the same. The
  guard reports of a world are the fatal reports of the copy-count check in its trace.
\<close>

definition same_store :: "world \<Rightarrow> world \<Rightarrow> bool" where
  "same_store w w' = (fs w' = fs w \<and> run_coll w' = run_coll w)"

fun is_guard_report :: "event \<Rightarrow> bool" where
  "is_guard_report (Report p m r) = (p = Fatal \<and> m = essential_copy)"
| "is_guard_report e = False"

definition guard_reports :: "world \<Rightarrow> event list" where
  "guard_reports w = filter is_guard_report (events w)"

subsection \<open>Runs that clean_ceph can finish\<close>






section \<open>Concrete runs\<close>

text \<open>
  The run of scenarios A and B: run 24399, done and transferred, with raw records on eb1;
  in scenario B the live data is still on the shared tier (type live on host daq).
  \<open>scenario_B_same_type\<close> is scenario B read to the letter: the second entry has the
  same data type as the first and sits on the shared tier.
\<close>

definition eb1 :: args where
  "eb1 = \<lparr>production = True, ask_confirm = False, force = False, hostname = ''eb1'',
          ceph_folder = ''/live_data/xenonnt'', output_folder = ''/data/xenonnt_processed'',
          pre_folder = ''/data/pre_processed'',
          non_registered_folder = ''/data/xenonnt_unregistered''\<rparr>"

definition raw_eb1 :: ddoc where
  "raw_eb1 = \<lparr>type = ''raw_records'', host = Some ''eb1'',
              location = Some ''/data/eb1/24399-raw'', meta = None, protocol = Some ''file'',
              at = None, deleted_by = None, reason = None\<rparr>"

definition live_daq :: ddoc where
  "live_daq = \<lparr>type = ''live'', host = Some ''daq'',
               location = Some ''/live_data/xenonnt'', meta = None, protocol = None,
               at = None, deleted_by = None, reason = None\<rparr>"

definition raw_shared :: ddoc where
  "raw_shared = \<lparr>type = ''raw_records'', host = Some ''daq'',
                 location = None, meta = None, protocol = None,
                 at = None, deleted_by = None, reason = None\<rparr>"

definition scenario_A :: rundoc where
  "scenario_A = \<lparr>doc_id = 7, number = 24399, bootstrax_state = ''done'', bootstrax_time = 0,
                 bootstrax_host = ''eb1'', status = ''transferred'', start = 0,
                 data = [raw_eb1], deleted_data = []\<rparr>"

definition scenario_B :: rundoc where
  "scenario_B = scenario_A\<lparr>data := [raw_eb1, live_daq]\<rparr>"

definition scenario_B_same_type :: rundoc where
  "scenario_B_same_type = scenario_A\<lparr>data := [raw_eb1, raw_shared]\<rparr>"

definition world_of :: "string list \<Rightarrow> rundoc list \<Rightarrow> world" where
  "world_of paths docs =
     \<lparr>fs = paths, run_coll = docs, clock = 1000000, stdin = [], events = []\<rparr>"



text \<open>
  Two calls of \<open>delete_data\<close> in a row for the raw records of scenario B when the path is
  not on disk: the second call gets the run document as the first call left it, five seconds
  later.
\<close>

definition absent_first_call :: "(error + unit) \<times> rundoc \<times> world" where
  "absent_first_call =
     delete_data eb1 scenario_B ''/data/eb1/24399-raw'' ''raw_records'' False False ''manual''
       (world_of [] [scenario_B])"

definition absent_second_call :: "(error + unit) \<times> rundoc \<times> world" where
  "absent_second_call =
     (case absent_first_call of
        (r1, rd1, w1) \<Rightarrow>
          delete_data eb1 rd1 ''/data/eb1/24399-raw'' ''raw_records'' False False ''manual''
            (time_sleep 5 w1))"


text \<open>
  A run that is done, transferred and two years old, with raw records and a high level data
  type on eb1, both on disk; and a disk with a folder of run 123, which no run document has.
\<close>

definition peaks_eb1 :: ddoc where
  "peaks_eb1 = \<lparr>type = ''peak_basics'', host = Some ''eb1'',
                location = Some ''/data/eb1/24399-peak_basics'', meta = None,
                protocol = Some ''file'', at = None, deleted_by = None, reason = None\<rparr>"

definition old_run :: rundoc where
  "old_run = scenario_A\<lparr>data := [raw_eb1, raw_shared, peaks_eb1]\<rparr>"

definition old_world :: world where
  "old_world =
     (world_of [''/data/eb1/24399-raw'', ''/data/eb1/24399-peak_basics''] [old_run])
       \<lparr>clock := 2 * remove_high_level_data\<rparr>"

definition unregistered_world :: world where
  "unregistered_world =
     world_of [''/data/pre_processed/000123-raw_records-abc''] [scenario_B]"


text \<open>An abandoned run whose only data are the raw records on eb1, on disk.\<close>

definition abandoned_run :: rundoc where
  "abandoned_run = scenario_A\<lparr>bootstrax_state := ''abandoned''\<rparr>"

definition abandoned_world :: world where
  "abandoned_world = world_of [''/data/eb1/24399-raw''] [abandoned_run]"


text \<open>An abandoned run whose entry on eb1 has no location: \<^verbatim>\<open>ddoc["location"]\<close> is a \<^verbatim>\<open>KeyError\<close>.\<close>

definition broken_world :: world where
  "broken_world = world_of [] [abandoned_run\<lparr>data := [raw_eb1\<lparr>location := None\<rparr>]\<rparr>]"


text \<open>eb1 without \<^verbatim>\<open>--production\<close>, and scenario B with the raw records on disk.\<close>

definition eb1_dry :: args where
  "eb1_dry = eb1\<lparr>production := False\<rparr>"

definition scenario_B_world :: world where
  "scenario_B_world = world_of [''/data/eb1/24399-raw''] [scenario_B]"


text \<open>
  The host that may clean ceph. A runs collection with two runs that have live data and raw
  records, and one run without live data; and a run with live data but no raw records.
\<close>

definition eb0 :: args where
  "eb0 = eb1\<lparr>hostname := eb_can_clean_ceph\<rparr>"






section \<open>The copy-count check\<close>

lemma count_live_raw_eq:
  "count_live_raw dds n_live n_rr =
     (n_live + length (filter (\<lambda>d. type d = ''live'') dds),
      n_rr + length (filter (\<lambda>d. type d = ''raw_records'') dds))"
  by (induction dds arbitrary: n_live n_rr) simp_all

lemma check_rundoc_eq:
  "check_rundoc_for_live_and_raw rd =
     (length (filter (\<lambda>d. type d = ''live'') (data rd)),
      length (filter (\<lambda>d. type d = ''raw_records'') (data rd)))"
  by (simp add: check_rundoc_for_live_and_raw_def count_live_raw_eq)

lemma low_data_check_cases:
  "low_data_check rd data_type test ovr w =
     (if ovr \<or> length (filter (\<lambda>d. type d = ''live'') (data rd)) \<ge> 1
          \<or> length (filter (\<lambda>d. type d = ''raw_records'') (data rd))
               \<ge> 1 + (if sublist ''raw_records'' data_type then 1 else 0)
      then (Inr (), w)
      else if test
      then (Inr (), log_warning essential_copy Fatal (Some (run_id_of (number rd))) w)
      else (Inl (ValueError essential_copy),
            log_warning essential_copy Fatal (Some (run_id_of (number rd))) w))"
  by (auto simp: low_data_check_def check_rundoc_eq Let_def Suc_le_eq)

lemma confirm_input_error:
  "confirm_input xs = (Inl e, r) \<Longrightarrow> e = EOFError"
  by (induction xs arbitrary: e r) (auto split: if_splits prod.splits sum.splits)

lemma confirm_error:
  "confirm a w = (Inl e, w') \<Longrightarrow> e = EOFError"
  by (auto simp: confirm_def split: if_splits prod.splits dest: confirm_input_error)

lemma ajax_rmtree_error:
  assumes "ajax_rmtree a path w = (Inl e, w')"
  shows "e = EOFError \<or> e = FileNotFoundError path \<or> e = ValueError ''does not exist''"
proof (cases "production a")
  case True
  obtain r w1 where c: "confirm a w = (r, w1)" by (cases "confirm a w")
  show ?thesis
  proof (cases r)
    case (Inl e')
    with c True assms confirm_error[of a w e' w1] show ?thesis
      by (simp add: ajax_rmtree_def)
  next
    case (Inr ok)
    with c True assms show ?thesis
      by (simp add: ajax_rmtree_def shutil_rmtree_def split: if_splits)
  qed
next
  case False
  with assms show ?thesis
    by (simp add: ajax_rmtree_def Let_def split: if_splits)
qed

lemma delete_from_disk_error:
  assumes "delete_from_disk a path test w = (Inl e, w')"
  shows "e = EOFError \<or> e = FileNotFoundError path \<or> e = ValueError ''does not exist''"
proof (cases "path_exists w path \<and> \<not> test")
  case True
  obtain r w1 where c: "ajax_rmtree a path (emit (Log Info ''Deleting data'') w) = (r, w1)"
    by (cases "ajax_rmtree a path (emit (Log Info ''Deleting data'') w)")
  with True assms have "r = Inl e"
    by (cases r) (simp_all add: delete_from_disk_def Let_def)
  with c ajax_rmtree_error show ?thesis by blast
next
  case False
  with assms show ?thesis
    by (simp add: delete_from_disk_def Let_def split: if_splits)
qed

lemma locate_ddoc_error:
  "locate_ddoc data_type hn dds i = Inl e \<Longrightarrow> e = NameError ''ddoc'' \<or> e = KeyError ''host''"
  by (induction dds arbitrary: i) (auto split: if_splits option.splits)

lemma change_rundoc_error:
  assumes "change_rundoc a rd path data_type test rsn w = (Inl e, rd', w')"
  shows "e = EOFError \<or> e = NameError ''ddoc'' \<or> e = KeyError ''host''
           \<or> e = ValueError ''Something went wrong we wanted to delete''"
proof (cases "path_exists w path")
  case True
  with assms show ?thesis by (simp add: change_rundoc_def split: if_splits)
next
  case False
  show ?thesis
  proof (cases "locate_ddoc data_type (hostname a) (data rd) 0")
    case (Inl e')
    with False assms locate_ddoc_error[OF Inl] show ?thesis
      by (auto simp: change_rundoc_def)
  next
    case (Inr i)
    show ?thesis
    proof (cases "production a \<and> \<not> test")
      case True
      obtain r w2 where c: "confirm a (emit (Log Info ''changing data field in rundoc'') w) = (r, w2)"
        by (cases "confirm a (emit (Log Info ''changing data field in rundoc'') w)")
      with True Inr False assms have "r = Inl e"
        by (cases r) (simp_all add: change_rundoc_def Let_def split: if_splits)
      with c confirm_error show ?thesis by blast
    next
      case nt: False
      with Inr False assms show ?thesis
        by (simp add: change_rundoc_def Let_def split: if_splits)
    qed
  qed
qed

lemma delete_data_essential_iff:
  "(fst (delete_data a rd path data_type test ovr rsn w) = Inl (ValueError essential_copy))
     = (fst (low_data_check rd data_type test ovr w) = Inl (ValueError essential_copy))"
proof (cases "low_data_check rd data_type test ovr w")
  case (Pair r w1)
  show ?thesis
  proof (cases r)
    case (Inl e)
    with Pair show ?thesis by (simp add: delete_data_def)
  next
    case (Inr u)
    obtain r2 w2 where d: "delete_from_disk a path test w1 = (r2, w2)"
      by (cases "delete_from_disk a path test w1")
    show ?thesis
    proof (cases r2)
      case (Inl e)
      with d delete_from_disk_error have "e \<noteq> ValueError essential_copy"
        by (fastforce simp: essential_copy_def)
      with Pair Inr d Inl show ?thesis by (simp add: delete_data_def)
    next
      case r2: (Inr u2)
      obtain r3 rd3 w3 where c: "change_rundoc a rd path data_type test rsn w2 = (r3, rd3, w3)"
        by (cases "change_rundoc a rd path data_type test rsn w2")
      have "r3 \<noteq> Inl (ValueError essential_copy)"
        using c change_rundoc_error[of a rd path data_type test rsn w2 _ rd3 w3]
        by (cases r3) (auto simp: essential_copy_def)
      with Pair Inr d r2 c show ?thesis by (simp add: delete_data_def)
    qed
  qed
qed

text \<open>
  C1. Write \<open>n_live\<close> and \<open>n_rr\<close> for the numbers of entries of type live and of type
  raw_records in the run document, and say the check allows when the override is set, or
  \<open>n_live \<ge> 1\<close>, or \<open>n_rr \<ge> 1 + (1 if raw_records occurs in the data type else 0)\<close>.
  When the check allows, it does nothing. When it does not, it reports a fatal warning; it
  then raises in real execution (\<open>test\<close> false) and returns normally in a dry run. And
  \<open>delete_data\<close> raises this error exactly when the check does not allow and \<open>test\<close>
  is false.
\<close>

theorem delete_data_copy_count_guard:
  "(let n_live = length (filter (\<lambda>d. type d = ''live'') (data rd));
        n_rr = length (filter (\<lambda>d. type d = ''raw_records'') (data rd));
        allow = (ovr \<or> n_live \<ge> 1
                   \<or> n_rr \<ge> 1 + (if sublist ''raw_records'' data_type then 1 else 0));
        warned = log_warning essential_copy Fatal (Some (run_id_of (number rd))) w
    in (allow \<longrightarrow> low_data_check rd data_type test ovr w = (Inr (), w))
     \<and> (\<not> allow \<and> \<not> test \<longrightarrow>
          low_data_check rd data_type test ovr w = (Inl (ValueError essential_copy), warned))
     \<and> (\<not> allow \<and> test \<longrightarrow> low_data_check rd data_type test ovr w = (Inr (), warned))
     \<and> ((fst (delete_data a rd path data_type test ovr rsn w) = Inl (ValueError essential_copy))
          = (\<not> allow \<and> \<not> test)))"
  unfolding Let_def delete_data_essential_iff
  by (simp add: low_data_check_cases)

theorem delete_data_copy_count_guard_witness:
  "low_data_check scenario_A ''raw_records'' False False (world_of [] [scenario_A])
     = (Inl (ValueError essential_copy),
        log_warning essential_copy Fatal (Some ''024399'') (world_of [] [scenario_A]))
   \<and> low_data_check scenario_A ''raw_records'' True False (world_of [] [scenario_A])
     = (Inr (), log_warning essential_copy Fatal (Some ''024399'') (world_of [] [scenario_A]))
   \<and> low_data_check scenario_B ''raw_records'' False False (world_of [] [scenario_B])
     = (Inr (), world_of [] [scenario_B])
   \<and> low_data_check scenario_A ''raw_records'' False True (world_of [] [scenario_A])
     = (Inr (), world_of [] [scenario_A])"
proof -
  have n: "run_id_of 24399 = ''024399''"
    by (simp add: run_id_of_def dec.simps)
  have A: "data scenario_A = [raw_eb1]" "number scenario_A = 24399"
    by (simp_all add: scenario_A_def)
  have B: "data scenario_B = [raw_eb1, live_daq]"
    by (simp add: scenario_B_def scenario_A_def)
  have t: "type raw_eb1 = ''raw_records''" "type live_daq = ''live''"
    by (simp_all add: raw_eb1_def live_daq_def)
  show ?thesis
    using delete_data_copy_count_guard [where ovr=False and rd=scenario_A and data_type="''raw_records''" and test=False
               and w="world_of [] [scenario_A]"]
          delete_data_copy_count_guard [where ovr=False and rd=scenario_A and data_type="''raw_records''" and test=True
               and w="world_of [] [scenario_A]"]
          delete_data_copy_count_guard [where ovr=False and rd=scenario_B and data_type="''raw_records''" and test=False
               and w="world_of [] [scenario_B]"]
          delete_data_copy_count_guard [where ovr=True and rd=scenario_A and data_type="''raw_records''" and test=False
               and w="world_of [] [scenario_A]"]
    by (simp add: Let_def n A B t sublist_code)
qed

section \<open>What delete_data changes\<close>

lemma emit_frame [simp]:
  "fs (emit e w) = fs w" "run_coll (emit e w) = run_coll w"
  "clock (emit e w) = clock w" "stdin (emit e w) = stdin w"
  "path_exists (emit e w) p = path_exists w p"
  by (simp_all add: emit_def path_exists_def)

lemma log_warning_frame [simp]:
  "fs (log_warning m p r w) = fs w" "run_coll (log_warning m p r w) = run_coll w"
  "clock (log_warning m p r w) = clock w" "stdin (log_warning m p r w) = stdin w"
  "path_exists (log_warning m p r w) q = path_exists w q"
  by (simp_all add: log_warning_def)

lemma confirm_frame:
  assumes "confirm a w = (r, w')"
  shows "fs w' = fs w \<and> run_coll w' = run_coll w \<and> clock w' = clock w"
  using assms by (auto simp: confirm_def split: if_splits prod.splits)

lemma confirm_no_ask:
  "\<not> ask_confirm a \<Longrightarrow> confirm a w = (Inr True, w)"
  by (simp add: confirm_def)

lemma low_data_check_frame:
  assumes "low_data_check rd data_type test ovr w = (r, w')"
  shows "fs w' = fs w \<and> run_coll w' = run_coll w \<and> clock w' = clock w \<and> stdin w' = stdin w"
  using assms by (auto simp: low_data_check_cases split: if_splits)

lemma shutil_rmtree_frame:
  assumes "shutil_rmtree p w = (r, w')"
  shows "run_coll w' = run_coll w \<and> clock w' = clock w \<and> stdin w' = stdin w"
  using assms by (auto simp: shutil_rmtree_def split: if_splits)

lemma ajax_rmtree_frame:
  assumes "ajax_rmtree a path w = (r, w')"
  shows "run_coll w' = run_coll w \<and> clock w' = clock w"
proof (cases "production a")
  case True
  obtain c w1 where c: "confirm a w = (c, w1)" by (cases "confirm a w")
  from confirm_frame[OF c] have f: "run_coll w1 = run_coll w" "clock w1 = clock w" by simp_all
  show ?thesis
  proof (cases c)
    case (Inl e)
    with c True assms f show ?thesis by (simp add: ajax_rmtree_def)
  next
    case (Inr ok)
    show ?thesis
    proof (cases ok)
      case True
      with c Inr \<open>production a\<close> assms have "shutil_rmtree path w1 = (r, w')"
        by (simp add: ajax_rmtree_def)
      from shutil_rmtree_frame[OF this] f show ?thesis by simp
    next
      case False
      with c Inr \<open>production a\<close> assms f show ?thesis by (simp add: ajax_rmtree_def)
    qed
  qed
next
  case False
  with assms show ?thesis by (auto simp: ajax_rmtree_def Let_def split: if_splits)
qed

lemma ajax_rmtree_dry:
  assumes "ajax_rmtree a path w = (r, w')" "\<not> production a"
  shows "fs w' = fs w \<and> stdin w' = stdin w"
  using assms by (auto simp: ajax_rmtree_def Let_def split: if_splits)

lemma delete_from_disk_frame:
  assumes "delete_from_disk a path test w = (r, w')"
  shows "run_coll w' = run_coll w \<and> clock w' = clock w"
proof (cases "path_exists w path \<and> \<not> test")
  case True
  obtain r1 w1 where c: "ajax_rmtree a path (emit (Log Info ''Deleting data'') w) = (r1, w1)"
    by (cases "ajax_rmtree a path (emit (Log Info ''Deleting data'') w)")
  from ajax_rmtree_frame[OF c] have "run_coll w1 = run_coll w" "clock w1 = clock w" by simp_all
  with True assms c show ?thesis
    by (cases r1) (auto simp: delete_from_disk_def Let_def)
next
  case False
  with assms show ?thesis
    by (auto simp: delete_from_disk_def Let_def split: if_splits)
qed

lemma delete_from_disk_dry:
  assumes "delete_from_disk a path test w = (r, w')" "test \<or> \<not> production a"
  shows "fs w' = fs w"
proof (cases "path_exists w path \<and> \<not> test")
  case True
  obtain r1 w1 where c: "ajax_rmtree a path (emit (Log Info ''Deleting data'') w) = (r1, w1)"
    by (cases "ajax_rmtree a path (emit (Log Info ''Deleting data'') w)")
  from True assms(2) have "\<not> production a" by simp
  from ajax_rmtree_dry[OF c this] have "fs w1 = fs w" by simp
  with True assms c show ?thesis
    by (cases r1) (auto simp: delete_from_disk_def Let_def)
next
  case False
  with assms show ?thesis
    by (auto simp: delete_from_disk_def Let_def split: if_splits)
qed

lemma delete_from_disk_absent:
  "\<not> path_exists w path \<Longrightarrow>
   delete_from_disk a path test w
     = (Inr (), emit (Log Info ''There is no data! Just doing the rundoc.'') w)"
  by (simp add: delete_from_disk_def)

text \<open>The third part either leaves the runs collection alone or makes one update of it.\<close>

lemma change_rundoc_frame:
  assumes "change_rundoc a rd path data_type test rsn w = (r, rd', w')"
  shows "fs w' = fs w \<and> clock w' = clock w"
proof (cases "path_exists w path")
  case True
  with assms show ?thesis by (auto simp: change_rundoc_def split: if_splits)
next
  case False
  show ?thesis
  proof (cases "locate_ddoc data_type (hostname a) (data rd) 0")
    case (Inl e)
    with False assms show ?thesis by (auto simp: change_rundoc_def)
  next
    case (Inr i)
    show ?thesis
    proof (cases "production a \<and> \<not> test")
      case True
      obtain c w2 where c: "confirm a (emit (Log Info ''changing data field in rundoc'') w) = (c, w2)"
        by (cases "confirm a (emit (Log Info ''changing data field in rundoc'') w)")
      from confirm_frame[OF c] have "fs w2 = fs w" "clock w2 = clock w" by simp_all
      with True Inr False assms c show ?thesis
        by (cases c) (auto simp: change_rundoc_def Let_def split: if_splits)
    next
      case nt: False
      with Inr False assms show ?thesis
        by (auto simp: change_rundoc_def Let_def split: if_splits)
    qed
  qed
qed

lemma change_rundoc_update:
  assumes "change_rundoc a rd path data_type test rsn w = (r, rd', w')"
      and "run_coll w' \<noteq> run_coll w"
  shows "production a \<and> \<not> test \<and> r = Inr () \<and> \<not> path_exists w path \<and>
         (\<exists>i. locate_ddoc data_type (hostname a) (data rd) 0 = Inr i \<and>
              run_coll w' =
                update_one (doc_id rd)
                  (pull_and_add data_type (hostname a)
                     (mark_deleted a rsn (clock w) (data rd ! i)))
                  (run_coll w))"
proof (cases "path_exists w path")
  case True
  with assms show ?thesis by (auto simp: change_rundoc_def split: if_splits)
next
  case False
  show ?thesis
  proof (cases "locate_ddoc data_type (hostname a) (data rd) 0")
    case (Inl e)
    with False assms show ?thesis by (auto simp: change_rundoc_def)
  next
    case (Inr i)
    show ?thesis
    proof (cases "production a \<and> \<not> test")
      case True
      obtain c w2 where c: "confirm a (emit (Log Info ''changing data field in rundoc'') w) = (c, w2)"
        by (cases "confirm a (emit (Log Info ''changing data field in rundoc'') w)")
      from confirm_frame[OF c] have "run_coll w2 = run_coll w" by simp
      with True Inr False assms c show ?thesis
        by (cases c) (auto simp: change_rundoc_def Let_def now_def split: if_splits)
    next
      case nt: False
      with Inr False assms show ?thesis
        by (auto simp: change_rundoc_def Let_def split: if_splits)
    qed
  qed
qed

lemma change_rundoc_dry:
  assumes "change_rundoc a rd path data_type test rsn w = (r, rd', w')"
      and "test \<or> \<not> production a"
  shows "run_coll w' = run_coll w"
  using change_rundoc_update[OF assms(1)] assms(2) by blast

lemma delete_data_stages:
  obtains (guard) e w1 where
      "low_data_check rd data_type test ovr w = (Inl e, w1)"
      "delete_data a rd path data_type test ovr rsn w = (Inl e, rd, w1)"
  | (disk) u w1 e w2 where
      "low_data_check rd data_type test ovr w = (Inr u, w1)"
      "delete_from_disk a path test w1 = (Inl e, w2)"
      "delete_data a rd path data_type test ovr rsn w = (Inl e, rd, w2)"
  | (rundoc) u w1 u' w2 where
      "low_data_check rd data_type test ovr w = (Inr u, w1)"
      "delete_from_disk a path test w1 = (Inr u', w2)"
      "delete_data a rd path data_type test ovr rsn w
         = change_rundoc a rd path data_type test rsn w2"
proof (cases "low_data_check rd data_type test ovr w")
  case (Pair r w1)
  show ?thesis
  proof (cases r)
    case (Inl e)
    with Pair show ?thesis by (intro guard[of e w1]) (simp_all add: delete_data_def)
  next
    case (Inr u)
    obtain r2 w2 where d: "delete_from_disk a path test w1 = (r2, w2)"
      by (cases "delete_from_disk a path test w1")
    show ?thesis
    proof (cases r2)
      case (Inl e)
      with Pair Inr d show ?thesis
        by (intro disk[of u w1 e w2]) (simp_all add: delete_data_def)
    next
      case r2: (Inr u')
      with Pair Inr d show ?thesis
        by (intro rundoc[of u w1 u' w2]) (simp_all add: delete_data_def)
    qed
  qed
qed

lemma delete_data_dry:
  assumes "delete_data a rd path data_type test ovr rsn w = (r, rd', w')"
      and "test \<or> \<not> production a"
  shows "fs w' = fs w \<and> run_coll w' = run_coll w"
proof (cases rule: delete_data_stages[of rd data_type test ovr w a path rsn])
  case (guard e w1)
  with assms low_data_check_frame[OF guard(1)] show ?thesis by simp
next
  case (disk u w1 e w2)
  with assms low_data_check_frame[OF disk(1)] delete_from_disk_frame[OF disk(2)]
    delete_from_disk_dry[OF disk(2) assms(2)]
  show ?thesis by simp
next
  case (rundoc u w1 u' w2)
  with assms have c: "change_rundoc a rd path data_type test rsn w2 = (r, rd', w')" by simp
  from low_data_check_frame[OF rundoc(1)] delete_from_disk_frame[OF rundoc(2)]
    delete_from_disk_dry[OF rundoc(2) assms(2)]
    change_rundoc_frame[OF c] change_rundoc_dry[OF c assms(2)]
  show ?thesis by simp
qed


lemma locate_ddoc_found:
  assumes "locate_ddoc data_type hn dds k = Inr i"
      and "\<exists>d\<in>set dds. pulled data_type hn d"
  shows "k \<le> i \<and> i - k < length dds \<and> pulled data_type hn (dds ! (i - k))"
  using assms
proof (induction dds arbitrary: k)
  case Nil
  then show ?case by simp
next
  case (Cons d dds)
  show ?case
  proof (cases "pulled data_type hn d")
    case True
    with Cons.prems(1) show ?thesis by (auto simp: pulled_def)
  next
    case False
    with Cons.prems(2) have ex: "\<exists>d\<in>set dds. pulled data_type hn d" by simp
    from False Cons.prems(1) have "locate_ddoc data_type hn dds (Suc k) = Inr i"
      by (auto simp: pulled_def split: if_splits option.splits)
    from Cons.IH[OF this ex] show ?thesis
      by (auto simp: nth_Cons' Suc_diff_Suc less_eq_Suc_le)
  qed
qed


section \<open>The update of the run document\<close>

lemmas delete_data_eval =
  delete_data_def low_data_check_def check_rundoc_for_live_and_raw_def delete_from_disk_def
  ajax_rmtree_def shutil_rmtree_def change_rundoc_def confirm_def mark_deleted_def
  pull_and_add_def add_to_set_def pulled_def path_exists_def under_def emit_def
  log_warning_def now_def Let_def sublist_code(3)

lemmas scenario_eval =
  eb1_def raw_eb1_def live_daq_def raw_shared_def scenario_A_def scenario_B_def
  scenario_B_same_type_def world_of_def







section \<open>A path that is already gone\<close>

lemma locate_ddoc_total:
  assumes "list_all (\<lambda>d. host d \<noteq> None) dds" and "\<exists>d\<in>set dds. pulled data_type hn d"
  shows "\<exists>i. locate_ddoc data_type hn dds k = Inr i"
  using assms
  by (induction dds arbitrary: k) (auto simp: pulled_def split: option.splits)

lemma locate_ddoc_cong:
  assumes "map type dds = map type dds'" and "map host dds = map host dds'"
  shows "locate_ddoc data_type hn dds k = locate_ddoc data_type hn dds' k"
  using assms
proof (induction dds arbitrary: dds' k)
  case Nil
  then show ?case by simp
next
  case (Cons d dds)
  then obtain d' ds' where "dds' = d' # ds'" by (cases dds') auto
  with Cons show ?case by (auto split: option.splits)
qed

lemma map_update_same:
  assumes "f y = f (xs ! i)"
  shows "map f (xs[i := y]) = map f xs"
proof (cases "i < length xs")
  case True
  with assms show ?thesis by (simp add: map_update list_update_same_conv)
next
  case False
  then show ?thesis by (simp add: list_update_beyond)
qed

lemma map_mark_deleted:
  "map type (dds[i := mark_deleted a rsn t (dds ! i)]) = map type dds"
  "map host (dds[i := mark_deleted a rsn t (dds ! i)]) = map host dds"
  by (rule map_update_same, simp add: mark_deleted_def)+

lemma filter_type_map:
  "length (filter (\<lambda>d. type d = x) dds) = length (filter (\<lambda>t. t = x) (map type dds))"
  by (induction dds) simp_all

lemma delete_data_absent:
  assumes "production a" and "\<not> ask_confirm a" and "\<not> path_exists w path"
      and "ovr \<or> length (filter (\<lambda>d. type d = ''live'') (data rd)) \<ge> 1
             \<or> length (filter (\<lambda>d. type d = ''raw_records'') (data rd))
                  \<ge> 1 + (if sublist ''raw_records'' data_type then 1 else 0)"
      and "locate_ddoc data_type (hostname a) (data rd) 0 = Inr i"
  shows "delete_data a rd path data_type False ovr rsn w =
     (Inr (),
      rd\<lparr>data := (data rd)[i := mark_deleted a rsn (clock w) (data rd ! i)]\<rparr>,
      (emit (Log Info ''changing data field in rundoc'')
         (emit (Log Info ''There is no data! Just doing the rundoc.'') w))
        \<lparr>run_coll :=
           update_one (doc_id rd)
             (pull_and_add data_type (hostname a) (mark_deleted a rsn (clock w) (data rd ! i)))
             (run_coll w)\<rparr>)"
  using assms
  by (simp add: delete_data_def low_data_check_cases delete_from_disk_absent change_rundoc_def
        confirm_no_ask now_def Let_def)

lemma update_one_again:
  "map data (update_one i (pull_and_add data_type hn d2)
               (update_one i (pull_and_add data_type hn d1) docs))
   = map data (update_one i (pull_and_add data_type hn d1) docs)"
  by (induction docs) (simp_all add: pull_and_add_def)

text \<open>
  C4, as the code has it. In production without \<^verbatim>\<open>--ask_confirm\<close>, let the path be absent, the
  copy-count check allow (or be overridden), every entry of the run document the caller holds
  have a host, and one of them have the given type on daq or this host. Then
  \<open>delete_data\<close> raises nothing, leaves the disk alone and makes one update of the runs
  collection, which removes the matching entries and adds the record of the deletion. A
  second call with the run document as the first call left it, \<open>n\<close> seconds later, again
  raises nothing and makes one more update: it removes no entry (none is left) and adds the
  same record with the new time, unless an equal record is there already.
\<close>

theorem delete_data_absent_path:
  assumes "production a" and "\<not> ask_confirm a" and "\<not> path_exists w path"
      and "ovr \<or> length (filter (\<lambda>d. type d = ''live'') (data rd)) \<ge> 1
             \<or> length (filter (\<lambda>d. type d = ''raw_records'') (data rd))
                  \<ge> 1 + (if sublist ''raw_records'' data_type then 1 else 0)"
      and "list_all (\<lambda>d. host d \<noteq> None) (data rd)"
      and "\<exists>d\<in>set (data rd). pulled data_type (hostname a) d"
      and "delete_data a rd path data_type False ovr rsn w = (r1, rd1, w1)"
      and "delete_data a rd1 path data_type False ovr rsn (time_sleep n w1) = (r2, rd2, w2)"
  shows "r1 = Inr () \<and> r2 = Inr () \<and> fs w1 = fs w \<and> fs w2 = fs w \<and>
         (\<exists>ddoc. pulled data_type (hostname a) ddoc \<and> reason ddoc = Some rsn \<and>
            at ddoc = Some (clock w) \<and>
            run_coll w1 =
              update_one (doc_id rd) (pull_and_add data_type (hostname a) ddoc) (run_coll w) \<and>
            run_coll w2 =
              update_one (doc_id rd)
                (pull_and_add data_type (hostname a) (ddoc\<lparr>at := Some (clock w + n)\<rparr>))
                (run_coll w1) \<and>
            map data (run_coll w2) = map data (run_coll w1))"
proof -
  from locate_ddoc_total[OF assms(5,6)] obtain i where
    l: "locate_ddoc data_type (hostname a) (data rd) 0 = Inr i" by blast
  define ddoc where "ddoc = mark_deleted a rsn (clock w) (data rd ! i)"
  from locate_ddoc_found[OF l assms(6)] have i: "i < length (data rd)"
    and "pulled data_type (hostname a) (data rd ! i)" by simp_all
  then have d: "pulled data_type (hostname a) ddoc" "reason ddoc = Some rsn"
    "at ddoc = Some (clock w)"
    by (simp_all add: ddoc_def pulled_def mark_deleted_def)
  note first = delete_data_absent[OF assms(1-4) l, of rsn, folded ddoc_def]
  with assms(7) have r1: "r1 = Inr ()" and rd1: "rd1 = rd\<lparr>data := (data rd)[i := ddoc]\<rparr>"
    and w1: "w1 = (emit (Log Info ''changing data field in rundoc'')
                    (emit (Log Info ''There is no data! Just doing the rundoc.'') w))
                  \<lparr>run_coll := update_one (doc_id rd)
                      (pull_and_add data_type (hostname a) ddoc) (run_coll w)\<rparr>"
    by simp_all
  have m: "map type (data rd1) = map type (data rd)" "map host (data rd1) = map host (data rd)"
    by (simp_all add: rd1 ddoc_def map_mark_deleted)
  have l1: "locate_ddoc data_type (hostname a) (data rd1) 0 = Inr i"
    using locate_ddoc_cong[OF m] l by simp
  have g1: "ovr \<or> length (filter (\<lambda>d. type d = ''live'') (data rd1)) \<ge> 1
             \<or> length (filter (\<lambda>d. type d = ''raw_records'') (data rd1))
                  \<ge> 1 + (if sublist ''raw_records'' data_type then 1 else 0)"
    using assms(4) by (simp only: filter_type_map m)
  have f1: "fs w1 = fs w" "clock w1 = clock w"
    by (simp_all add: w1)
  have a1: "\<not> path_exists (time_sleep n w1) path"
    using assms(3) f1 by (simp add: path_exists_def time_sleep_def)
  have e: "data rd1 ! i = ddoc" "doc_id rd1 = doc_id rd"
    using i by (simp_all add: rd1)
  have t: "mark_deleted a rsn (clock (time_sleep n w1)) ddoc = ddoc\<lparr>at := Some (clock w + n)\<rparr>"
    by (simp add: ddoc_def mark_deleted_def time_sleep_def f1)
  note second = delete_data_absent[OF assms(1,2) a1 g1 l1, of rsn, unfolded e t]
  with assms(8) have r2: "r2 = Inr ()"
    and w2: "w2 = (emit (Log Info ''changing data field in rundoc'')
                    (emit (Log Info ''There is no data! Just doing the rundoc.'')
                       (time_sleep n w1)))
                  \<lparr>run_coll := update_one (doc_id rd)
                      (pull_and_add data_type (hostname a) (ddoc\<lparr>at := Some (clock w + n)\<rparr>))
                      (run_coll (time_sleep n w1))\<rparr>"
    by simp_all
  have c1: "run_coll w1 =
              update_one (doc_id rd) (pull_and_add data_type (hostname a) ddoc) (run_coll w)"
    by (simp add: w1)
  have c2: "run_coll w2 =
              update_one (doc_id rd)
                (pull_and_add data_type (hostname a) (ddoc\<lparr>at := Some (clock w + n)\<rparr>))
                (run_coll w1)"
    by (simp add: w2 time_sleep_def)
  have c3: "map data (run_coll w2) = map data (run_coll w1)"
    unfolding c2 unfolding c1 by (rule update_one_again)
  have f2: "fs w2 = fs w"
    by (simp add: w2 time_sleep_def f1)
  from r1 r2 f1(1) f2 d c1 c2 c3 show ?thesis by blast
qed


lemma absent_calls_eval:
  "fst absent_first_call = Inr ()"
  "map data (run_coll (snd (snd absent_first_call))) = [[live_daq]]"
  "map (\<lambda>d. map at (deleted_data d)) (run_coll (snd (snd absent_first_call))) = [[Some 1000000]]"
  "fst absent_second_call = Inr ()"
  "map data (run_coll (snd (snd absent_second_call))) = [[live_daq]]"
  "map (\<lambda>d. map at (deleted_data d)) (run_coll (snd (snd absent_second_call)))
     = [[Some 1000000, Some 1000005]]"
  "map (\<lambda>d. map reason (deleted_data d)) (run_coll (snd (snd absent_second_call)))
     = [[Some ''manual'', Some ''manual'']]"
  by (simp_all add: absent_second_call_def absent_first_call_def delete_data_eval scenario_eval
        time_sleep_def)

theorem delete_data_absent_path_witness:
  "fst absent_first_call = Inr () \<and> fst absent_second_call = Inr () \<and>
   fs (snd (snd absent_first_call)) = [] \<and> fs (snd (snd absent_second_call)) = [] \<and>
   map data (run_coll (snd (snd absent_first_call))) = [[live_daq]] \<and>
   map data (run_coll (snd (snd absent_second_call))) = [[live_daq]] \<and>
   map (\<lambda>d. map at (deleted_data d)) (run_coll (snd (snd absent_second_call)))
     = [[Some 1000000, Some 1000005]]"
proof -
  have h: "production eb1" "\<not> ask_confirm eb1"
    "\<not> path_exists (world_of [] [scenario_B]) ''/data/eb1/24399-raw''"
    "False \<or> length (filter (\<lambda>d. type d = ''live'') (data scenario_B)) \<ge> 1
       \<or> length (filter (\<lambda>d. type d = ''raw_records'') (data scenario_B))
            \<ge> 1 + (if sublist ''raw_records'' ''raw_records'' then 1 else 0)"
    "list_all (\<lambda>d. host d \<noteq> None) (data scenario_B)"
    "\<exists>d\<in>set (data scenario_B). pulled ''raw_records'' (hostname eb1) d"
    by (simp_all add: scenario_eval path_exists_def pulled_def)
  have e1: "delete_data eb1 scenario_B ''/data/eb1/24399-raw'' ''raw_records'' False False
              ''manual'' (world_of [] [scenario_B])
            = (fst absent_first_call, fst (snd absent_first_call), snd (snd absent_first_call))"
    by (simp add: absent_first_call_def)
  have e2: "delete_data eb1 (fst (snd absent_first_call)) ''/data/eb1/24399-raw''
              ''raw_records'' False False ''manual'' (time_sleep 5 (snd (snd absent_first_call)))
            = (fst absent_second_call, fst (snd absent_second_call),
               snd (snd absent_second_call))"
    by (simp add: absent_second_call_def split_beta)
  show ?thesis
    using delete_data_absent_path[OF h e1 e2] absent_calls_eval
    by (simp add: world_of_def)
qed

theorem delete_data_absent_path_counterexample:
  "fst (delete_data eb1 scenario_A ''/data/eb1/24399-raw'' ''raw_records'' False False ''manual''
          (world_of [] [scenario_A])) = Inl (ValueError essential_copy) \<and>
   map (\<lambda>d. length (deleted_data d)) (run_coll (snd (snd absent_first_call))) = [1] \<and>
   map (\<lambda>d. length (deleted_data d)) (run_coll (snd (snd absent_second_call))) = [2]"
  by (simp add: absent_second_call_def absent_first_call_def delete_data_eval scenario_eval
        time_sleep_def)

section \<open>The modes that stop at once\<close>

text \<open>
  C9, as the code has it. \<open>clean_high_level_data\<close> records its state and raises
  \<^verbatim>\<open>NotImplementedError\<close>, whatever the runs collection holds: it selects no run, deletes
  nothing from disk and changes no run document.
\<close>

theorem clean_high_level_data_not_implemented:
  "fst (clean_high_level_data a w) =
     Inl (NotImplementedError
            ''This is a drastic measure that we do not intend using at the time of writing'') \<and>
   fs (snd (clean_high_level_data a w)) = fs w \<and>
   run_coll (snd (clean_high_level_data a w)) = run_coll w \<and>
   events (snd (clean_high_level_data a w)) = events w @ [SetState ''clean_high_level_data'']"
  by (simp add: clean_high_level_data_def set_state_def emit_def)

theorem clean_high_level_data_counterexample:
  "production eb1 \<and> find_all (high_level_query eb1 old_world) old_world = [old_run] \<and>
   peaks_eb1 \<in> set (data old_run) \<and> path_exists old_world ''/data/eb1/24399-peak_basics'' \<and>
   fst (clean_high_level_data eb1 old_world) =
     Inl (NotImplementedError
            ''This is a drastic measure that we do not intend using at the time of writing'') \<and>
   path_exists (snd (clean_high_level_data eb1 old_world)) ''/data/eb1/24399-peak_basics'' \<and>
   run_coll (snd (clean_high_level_data eb1 old_world)) = [old_run]"
  by (simp add: clean_high_level_data_def set_state_def emit_def find_all_def high_level_query_def
        has_data_host_def old_world_def old_run_def peaks_eb1_def scenario_eval now_def
        remove_high_level_data_def path_exists_def under_def)

section \<open>A folder of a run that is not in the runs database\<close>

text \<open>
  C8. On the pre-processing folder of eb1 there is a folder of run 123, and no run document has
  the number 123. \<open>remove_if_unregistered\<close> reports the run with priority error and goes on
  to the double check; there \<^verbatim>\<open>find_one\<close> gives \<^verbatim>\<open>None\<close> and the count of live and raw
  data raises a \<^verbatim>\<open>TypeError\<close>: the folder stays where it is, and the exception is neither
  the \<^verbatim>\<open>FileNotFoundError\<close> nor the \<^verbatim>\<open>ValueError\<close> of the check.
\<close>

theorem remove_if_unregistered_type_error:
  "find_one (\<lambda>rd. number rd = 123) unregistered_world = None \<and>
   os_listdir (pre_folder eb1) unregistered_world = Inr [''000123-raw_records-abc''] \<and>
   remove_if_unregistered eb1 123 False (pre_folder eb1) unregistered_world =
     (Inl (TypeError ''NoneType object is not subscriptable''),
      unregistered_world
        \<lparr>events := [Report Error not_registered (Some ''000123''),
                    Report Warning ''No data found! Double checking'' (Some ''000123'')]\<rparr>)"
proof -
  have n: "run_id_of 123 = ''000123''"
    by code_simp
  have i: "int_of_run_id ''000123'' = Inr 123"
    by (simp add: int_of_run_id_def)
  have f: "find_one (\<lambda>rd. number rd = 123) unregistered_world = None"
    by (simp add: find_one_def unregistered_world_def scenario_eval)
  have l: "os_listdir (pre_folder eb1) unregistered_world = Inr [''000123-raw_records-abc'']"
    by (simp add: os_listdir_def child_name_def List.map_filter_def path_exists_def under_def
          unregistered_world_def scenario_eval Let_def)
  have "remove_if_unregistered eb1 123 False (pre_folder eb1) unregistered_world =
     (Inl (TypeError ''NoneType object is not subscriptable''),
      unregistered_world
        \<lparr>events := [Report Error not_registered (Some ''000123''),
                    Report Warning ''No data found! Double checking'' (Some ''000123'')]\<rparr>)"
    by (simp add: remove_if_unregistered_def remove_unregistered_run_def unregistered_step_def n i
          find_one_def number_on_host_query_def has_data_host_def os_listdir_def child_name_def
          List.map_filter_def path_exists_def under_def log_warning_def emit_def
          unregistered_world_def scenario_eval Let_def sublist_code(3))
  with f l show ?thesis by simp
qed

section \<open>Loops\<close>

lemma for_each_preserves:
  assumes "\<And>x s r s'. body x s = (r, s') \<Longrightarrow> P s \<Longrightarrow> P s'"
      and "for_each body xs s = (r, s')" and "P s"
  shows "P s'"
  using assms(2,3)
proof (induction xs arbitrary: s)
  case Nil
  then show ?case by simp
next
  case (Cons x xs)
  obtain r1 s1 where b: "body x s = (r1, s1)" by (cases "body x s")
  from assms(1)[OF b Cons.prems(2)] have p: "P s1" .
  show ?case
  proof (cases r1)
    case (Inl e)
    with b Cons.prems(1) p show ?thesis by simp
  next
    case (Inr u)
    with b Cons.prems(1) have "for_each body xs s1 = (r, s')" by simp
    from Cons.IH[OF this p] show ?thesis .
  qed
qed

lemma for_each_error:
  assumes "\<And>x s e s'. body x s = (Inl e, s') \<Longrightarrow> Q e"
      and "for_each body xs s = (Inl e, s')"
  shows "Q e"
  using assms(2)
proof (induction xs arbitrary: s)
  case Nil
  then show ?case by simp
next
  case (Cons x xs)
  obtain r1 s1 where b: "body x s = (r1, s1)" by (cases "body x s")
  show ?case
  proof (cases r1)
    case (Inl e1)
    with b Cons.prems have "e1 = e" by simp
    with b Inl assms(1) show ?thesis by blast
  next
    case (Inr u)
    with b Cons.prems have "for_each body xs s1 = (Inl e, s')" by simp
    from Cons.IH[OF this] show ?thesis .
  qed
qed

section \<open>The exceptions of the cleaning modes\<close>

lemma low_data_check_error:
  "low_data_check rd data_type test ovr w = (Inl e, w') \<Longrightarrow> e = ValueError essential_copy"
  by (auto simp: low_data_check_cases split: if_splits)

lemma delete_data_error:
  assumes "delete_data a rd path data_type test ovr rsn w = (Inl e, rd', w')"
  shows "\<not> stops_ajax e"
proof (cases rule: delete_data_stages[of rd data_type test ovr w a path rsn])
  case (guard e1 w1)
  with assms low_data_check_error[OF guard(1)] show ?thesis by auto
next
  case (disk u w1 e1 w2)
  with assms delete_from_disk_error[OF disk(2)] show ?thesis by auto
next
  case (rundoc u w1 u' w2)
  with assms have "change_rundoc a rd path data_type test rsn w2 = (Inl e, rd', w')" by simp
  from change_rundoc_error[OF this] show ?thesis by auto
qed

lemma remove_run_step_error:
  assumes "remove_run_step a n dl frc rsn hl hr i s = (Inl e, s')"
  shows "\<not> stops_ajax e"
proof -
  obtain rd w where s: "s = (rd, w)" by (cases s)
  obtain rd' w' where s': "s' = (rd', w')" by (cases s')
  have d: "\<not> stops_ajax e"
    if "delete_data a rd0 p t b frc rsn w0 = (Inl e, rd1, w1)" for rd0 p t b w0 rd1 w1
    using delete_data_error[OF that] .
  show ?thesis
    using assms unfolding s s' remove_run_step_def Let_def
    by (auto split: if_splits option.splits prod.splits sum.splits dest: d)
qed

lemma remove_run_from_host_error:
  assumes "remove_run_from_host a n dl frc rsn w = (Inl e, w')"
  shows "\<not> stops_ajax e"
proof (cases "find_one (number_on_host_query n (if \<not> dl then hostname a else ''daq'')) w")
  case None
  with assms show ?thesis by (simp add: remove_run_from_host_def)
next
  case (Some rd)
  obtain hl hr where c: "check_rundoc_for_live_and_raw rd = (hl, hr)"
    by (cases "check_rundoc_for_live_and_raw rd")
  obtain r rd' w1 where
    f: "for_each (remove_run_step a n dl frc rsn hl hr) [0..<length (data rd)] (rd, w)
          = (r, rd', w1)"
    by (cases "for_each (remove_run_step a n dl frc rsn hl hr) [0..<length (data rd)] (rd, w)")
  with Some c assms have "r = Inl e" by (simp add: remove_run_from_host_def)
  with f for_each_error[of "remove_run_step a n dl frc rsn hl hr" "\<lambda>e. \<not> stops_ajax e"]
    remove_run_step_error
  show ?thesis by blast
qed


lemma clean_ceph_error:
  "clean_ceph depth a w = Some (Inl e, w') \<Longrightarrow> \<not> stops_ajax e"
proof (induction depth arbitrary: w)
  case 0
  then show ?case by simp
next
  case (Suc depth)
  have r: "\<not> stops_ajax e"
    if "remove_run_from_host a n True (force a) ''clean ceph'' w0 = (Inl e, w1)" for n w0 w1
    using remove_run_from_host_error[OF that] .
  from Suc.prems show ?case
    by (auto simp: Let_def split: if_splits option.splits prod.splits sum.splits
             dest: r Suc.IH)
qed

lemma abandoned_loop_error:
  "abandoned_loop a dl rds i i_max w = (Inl e, w') \<Longrightarrow> \<not> stops_ajax e"
proof (induction rds arbitrary: i w)
  case Nil
  then show ?case by simp
next
  case (Cons rd rds)
  have r: "\<not> stops_ajax e"
    if "remove_run_from_host a n dl True ''run abandonned'' w0 = (Inl e, w1)" for n w0 w1
    using remove_run_from_host_error[OF that] .
  from Cons.prems show ?case
    by (auto split: if_splits prod.splits sum.splits dest: r Cons.IH)
qed

lemma clean_abandoned_error:
  "clean_abandoned depth dl a w = Some (Inl e, w') \<Longrightarrow> \<not> stops_ajax e"
proof (induction depth arbitrary: w)
  case 0
  then show ?case by simp
next
  case (Suc depth)
  from Suc.prems Suc.IH show ?case
    by (auto simp: Let_def split: if_splits option.splits prod.splits sum.splits
             dest: abandoned_loop_error)
qed

lemma raw_records_elsewhere_error:
  "raw_records_elsewhere hn dds = Inl e \<Longrightarrow> e = KeyError ''host''"
  by (induction dds) (auto split: if_splits option.splits)

lemma non_latest_step_error:
  assumes "non_latest_step a i s = (Inl e, s')"
  shows "\<not> stops_ajax e"
proof -
  obtain rd w where s: "s = (rd, w)" by (cases s)
  obtain rd' w' where s': "s' = (rd', w')" by (cases s')
  have d: "\<not> stops_ajax e"
    if "delete_data a rd0 p t b False ''non latest'' w0 = (Inl e, rd1, w1)" for rd0 p t b w0 rd1 w1
    using delete_data_error[OF that] .
  show ?thesis
    using assms unfolding s s' non_latest_step_def Let_def
    by (auto split: if_splits option.splits dest: d)
qed

lemma non_latest_loop_error:
  "non_latest_loop a rds w = (Inl e, w') \<Longrightarrow> \<not> stops_ajax e"
proof (induction rds arbitrary: w)
  case Nil
  then show ?case by simp
next
  case (Cons rd rds)
  show ?case
  proof (cases "raw_records_elsewhere (hostname a) (data rd)")
    case (Inl e1)
    with Cons.prems raw_records_elsewhere_error[OF Inl] show ?thesis by auto
  next
    case (Inr have_rr)
    obtain r rd' w1 where
      f: "for_each (non_latest_step a) [0..<length (data rd)] (rd, w) = (r, rd', w1)"
      by (cases "for_each (non_latest_step a) [0..<length (data rd)] (rd, w)")
    show ?thesis
    proof (cases r)
      case (Inl e1)
      with f Inr Cons.prems have "e1 = e" by (simp split: if_splits)
      with f Inl for_each_error[of "non_latest_step a" "\<lambda>e. \<not> stops_ajax e"]
        non_latest_step_error
      show ?thesis by blast
    next
      case r: (Inr u)
      with f Inr Cons.prems have "non_latest_loop a rds w1 = (Inl e, w')"
        by (simp split: if_splits)
      from Cons.IH[OF this] show ?thesis .
    qed
  qed
qed

lemma clean_non_latest_error:
  "clean_non_latest a w = (Inl e, w') \<Longrightarrow> \<not> stops_ajax e"
  by (auto simp: clean_non_latest_def Let_def dest: non_latest_loop_error)

lemma cleaning_sequence_error:
  assumes "cleaning_sequence depth a w = Some (Inl e, w')"
  shows "\<not> stops_ajax e"
  using assms unfolding cleaning_sequence_def
  by (auto split: if_splits option.splits prod.splits sum.splits
           dest: clean_ceph_error clean_abandoned_error clean_non_latest_error)

section \<open>The main loop\<close>

lemma main_loop_forever:
  assumes "production a"
      and "\<And>w e w'. body w = Some (Inl e, w') \<Longrightarrow> \<not> stops_ajax e"
  shows "main_loop rounds body a w = None"
proof (induction rounds arbitrary: w)
  case 0
  then show ?case by simp
next
  case (Suc rounds)
  show ?case
  proof (cases "body w")
    case None
    then show ?thesis by simp
  next
    case (Some p)
    obtain r w1 where p: "p = (r, w1)" by (cases p)
    show ?thesis
    proof (cases r)
      case (Inl e)
      with Some p assms(2) have "\<not> stops_ajax e" by blast
      with Some p Inl Suc.IH show ?thesis by simp
    next
      case (Inr u)
      with Some p assms(1) Suc.IH show ?thesis by simp
    qed
  qed
qed

lemma stops_ajax_iff:
  "stops_ajax e = (e = KeyboardInterrupt \<or> e = SystemExit \<or> (\<exists>m. e = NotImplementedError m))"
  by (cases e) simp_all

text \<open>
  C6, as the code has it. In the loop of \<^verbatim>\<open>--clean all\<close>, an exception raised in the main thread
  by the cleaning modes that is not \<^verbatim>\<open>KeyboardInterrupt\<close>, \<^verbatim>\<open>SystemExit\<close> or
  \<^verbatim>\<open>NotImplementedError\<close> (the three the first \<^verbatim>\<open>except\<close> clause names) is logged as an error,
  reported with priority error, followed by a sleep of 60 seconds, and the loop goes into
  its next round, in production and in a dry run alike. Each of the three stops ajax: it is
  logged, \<^verbatim>\<open>wait_on_delete_thread\<close> is called, and it is raised again. The cleaning modes of
  the loop raise none of the three themselves, so in production the loop does not return,
  however many rounds it is given. An exception in a delete thread ends that thread only: it
  does not reach the loop and is not reported.
\<close>

theorem main_loop_restarts:
  "(body w = Some (Inl e, w1) \<and> \<not> stops_ajax e \<longrightarrow>
      main_loop (Suc rounds) body a w = main_loop rounds body a (restart_after w1)) \<and>
   events (restart_after w1) =
     events w1 @ [Log Error ''Fatal warning: ran into. Try logging error and restart ajax'',
                  Report Error ''Fatal warning: ran into'' None, Sleep 60,
                  Log Warning ''Restarting main loop''] \<and>
   clock (restart_after w1) = clock w1 + 60 \<and>
   same_store w1 (restart_after w1) \<and>
   (body w = Some (Inl e, w1) \<and> stops_ajax e \<longrightarrow>
      main_loop (Suc rounds) body a w =
        Some (Inl e,
              w1\<lparr>events := events w1 @
                     [Log Info ''Stopping, wait a second for the delete threads'',
                      WaitOnDeleteThread]\<rparr>)) \<and>
   stops_ajax e = (e = KeyboardInterrupt \<or> e = SystemExit \<or> (\<exists>m. e = NotImplementedError m)) \<and>
   (production a \<and> (\<forall>w e w'. body w = Some (Inl e, w') \<longrightarrow> \<not> stops_ajax e) \<longrightarrow>
      main_loop rounds body a w = None) \<and>
   (production a \<longrightarrow> main_ajax_all rounds depth a w = None) \<and>
   (delete_data a rd path dtype test ovr rsn
      (emit (ThreadStarted (thread_prefix @ last_component path)) w) = (Inl e, rd', w') \<longrightarrow>
      threaded_delete_data a rd path dtype test ovr rsn w = (rd', emit (ThreadDied e) w'))"
proof -
  have 1: "body w = Some (Inl e, w1) \<and> \<not> stops_ajax e \<longrightarrow>
      main_loop (Suc rounds) body a w = main_loop rounds body a (restart_after w1)"
    by simp
  have 2: "events (restart_after w1) =
     events w1 @ [Log Error ''Fatal warning: ran into. Try logging error and restart ajax'',
                  Report Error ''Fatal warning: ran into'' None, Sleep 60,
                  Log Warning ''Restarting main loop'']"
    "clock (restart_after w1) = clock w1 + 60" "same_store w1 (restart_after w1)"
    by (simp_all add: restart_after_def emit_def time_sleep_def log_warning_def same_store_def)
  have 3: "body w = Some (Inl e, w1) \<and> stops_ajax e \<longrightarrow>
      main_loop (Suc rounds) body a w =
        Some (Inl e,
              w1\<lparr>events := events w1 @
                     [Log Info ''Stopping, wait a second for the delete threads'',
                      WaitOnDeleteThread]\<rparr>)"
    by (simp add: wait_on_delete_thread_def emit_def)
  have 4: "production a \<and> (\<forall>w e w'. body w = Some (Inl e, w') \<longrightarrow> \<not> stops_ajax e) \<longrightarrow>
      main_loop rounds body a w = None"
    using main_loop_forever[of a body rounds w] by blast
  have 5: "production a \<longrightarrow> main_ajax_all rounds depth a w = None"
    unfolding main_ajax_all_def
    using main_loop_forever[of a "cleaning_sequence depth a" rounds w] cleaning_sequence_error
    by blast
  have 6: "delete_data a rd path dtype test ovr rsn
      (emit (ThreadStarted (thread_prefix @ last_component path)) w) = (Inl e, rd', w') \<longrightarrow>
      threaded_delete_data a rd path dtype test ovr rsn w = (rd', emit (ThreadDied e) w')"
    by (simp add: threaded_delete_data_def)
  from 1 2 3 4 5 6 stops_ajax_iff[of e] show ?thesis by blast
qed

lemma broken_world_sequence:
  "cleaning_sequence 2 eb1 broken_world =
     Some (Inl (KeyError ''location''),
           broken_world\<lparr>events := [SetState ''clean_abandoned'',
                                   Log Info ''clean_abandoned: remove data associated to run'']\<rparr>)"
  "cleaning_sequence 2 eb1_dry broken_world =
     Some (Inl (KeyError ''location''),
           broken_world\<lparr>events := [SetState ''clean_abandoned'',
                                   Log Info ''clean_abandoned: remove data associated to run'']\<rparr>)"
  by (simp_all add: cleaning_sequence_def eb_can_clean_ceph_def numeral_2_eq_2 Let_def
        set_state_def emit_def find_one_def abandoned_query_def has_data_host_def
        remove_run_from_host_def number_on_host_query_def check_rundoc_for_live_and_raw_def
        remove_run_step_def broken_world_def abandoned_run_def eb1_dry_def scenario_eval)

theorem main_loop_restarts_witness:
  "main_loop (Suc (Suc 0))
     (\<lambda>w. if events w = [] then cleaning_sequence 2 eb1_dry w else Some (Inr (), w))
     eb1_dry broken_world =
     Some (Inr (),
           broken_world
             \<lparr>clock := 1000060,
              events := [SetState ''clean_abandoned'',
                         Log Info ''clean_abandoned: remove data associated to run'',
                         Log Error ''Fatal warning: ran into. Try logging error and restart ajax'',
                         Report Error ''Fatal warning: ran into'' None, Sleep 60,
                         Log Warning ''Restarting main loop'']\<rparr>) \<and>
   main_loop (Suc 0) (\<lambda>w. Some (Inl KeyboardInterrupt, w)) eb1 broken_world =
     Some (Inl KeyboardInterrupt,
           broken_world\<lparr>events := [Log Info ''Stopping, wait a second for the delete threads'',
                                   WaitOnDeleteThread]\<rparr>) \<and>
   main_ajax_all 7 2 eb1 broken_world = None"
proof -
  have p: "production eb1" by (simp add: eb1_def)
  define body where
    "body = (\<lambda>w. if events w = [] then cleaning_sequence 2 eb1_dry w else Some (Inr (), w))"
  define w1 where "w1 = broken_world\<lparr>events := [SetState ''clean_abandoned'',
              Log Info ''clean_abandoned: remove data associated to run'']\<rparr>"
  have b: "body broken_world = Some (Inl (KeyError ''location''), w1)"
    by (simp add: body_def w1_def broken_world_sequence(2))
       (simp add: broken_world_def world_of_def)
  note t = main_loop_restarts[where body=body and w=broken_world
      and e="KeyError ''location''" and rounds="Suc 0" and a=eb1_dry and ?w1.0=w1]
  from t b have "main_loop (Suc (Suc 0)) body eb1_dry broken_world =
      main_loop (Suc 0) body eb1_dry (restart_after w1)"
    by simp
  also have "\<dots> = Some (Inr (), restart_after w1)"
    by (simp add: body_def restart_after_def emit_def time_sleep_def log_warning_def w1_def
          eb1_dry_def)
  also have "restart_after w1 = broken_world
             \<lparr>clock := 1000060,
              events := [SetState ''clean_abandoned'',
                         Log Info ''clean_abandoned: remove data associated to run'',
                         Log Error ''Fatal warning: ran into. Try logging error and restart ajax'',
                         Report Error ''Fatal warning: ran into'' None, Sleep 60,
                         Log Warning ''Restarting main loop'']\<rparr>"
    by (simp add: restart_after_def emit_def time_sleep_def log_warning_def w1_def
          broken_world_def world_of_def)
  finally have 1: "main_loop (Suc (Suc 0)) body eb1_dry broken_world =
     Some (Inr (),
           broken_world
             \<lparr>clock := 1000060,
              events := [SetState ''clean_abandoned'',
                         Log Info ''clean_abandoned: remove data associated to run'',
                         Log Error ''Fatal warning: ran into. Try logging error and restart ajax'',
                         Report Error ''Fatal warning: ran into'' None, Sleep 60,
                         Log Warning ''Restarting main loop'']\<rparr>)" .
  note c = main_loop_restarts[where body="\<lambda>w. Some (Inl KeyboardInterrupt, w)"
      and w=broken_world and e=KeyboardInterrupt and rounds=0 and a=eb1 and ?w1.0=broken_world]
  from c have 2: "main_loop (Suc 0) (\<lambda>w. Some (Inl KeyboardInterrupt, w)) eb1 broken_world =
     Some (Inl KeyboardInterrupt,
           broken_world\<lparr>events := [Log Info ''Stopping, wait a second for the delete threads'',
                                   WaitOnDeleteThread]\<rparr>)"
    by (simp add: broken_world_def world_of_def)
  note d = main_loop_restarts[where rounds=7 and depth=2 and a=eb1 and w=broken_world]
  from d p have 3: "main_ajax_all 7 2 eb1 broken_world = None" by blast
  from 1 2 3 show ?thesis unfolding body_def by blast
qed

theorem main_loop_not_implemented_counterexample:
  "production eb1 \<and>
   main_loop (Suc 0) (\<lambda>w. Some (Inl (NotImplementedError ''not implemented''), w)) eb1
     broken_world =
     Some (Inl (NotImplementedError ''not implemented''),
           broken_world\<lparr>events := [Log Info ''Stopping, wait a second for the delete threads'',
                                   WaitOnDeleteThread]\<rparr>)"
  by (simp add: eb1_def wait_on_delete_thread_def emit_def broken_world_def world_of_def)

section \<open>A dry run changes nothing\<close>

lemma same_store_refl [simp]: "same_store w w"
  by (simp add: same_store_def)

lemma same_store_trans: "same_store w w1 \<Longrightarrow> same_store w1 w2 \<Longrightarrow> same_store w w2"
  by (simp add: same_store_def)

lemma same_store_trace [simp]:
  "same_store w (emit e w') = same_store w w'"
  "same_store w (log_warning m p r w') = same_store w w'"
  "same_store w (time_sleep n w') = same_store w w'"
  "same_store w (set_state st w') = same_store w w'"
  "same_store w (wait_on_delete_thread w') = same_store w w'"
  "same_store (emit e w') w = same_store w' w"
  "same_store (log_warning m p r w') w = same_store w' w"
  "same_store (time_sleep n w') w = same_store w' w"
  "same_store (set_state st w') w = same_store w' w"
  "same_store (wait_on_delete_thread w') w = same_store w' w"
  by (simp_all add: same_store_def emit_def log_warning_def time_sleep_def set_state_def
        wait_on_delete_thread_def)

lemma find_same_store:
  "same_store w w' \<Longrightarrow> find_one q w' = find_one q w"
  "same_store w w' \<Longrightarrow> find_all q w' = find_all q w"
  by (simp_all add: same_store_def find_one_def find_all_def)

lemma delete_data_dry_store:
  assumes "delete_data a rd path dtype test ovr rsn w = (r, rd', w')"
      and "test \<or> \<not> production a"
  shows "same_store w w'"
  using delete_data_dry[OF assms] by (simp add: same_store_def)

lemma threaded_delete_data_dry:
  assumes "threaded_delete_data a rd path dtype test ovr rsn w = (rd', w')"
      and "test \<or> \<not> production a"
  shows "same_store w w'"
proof -
  obtain r rd1 w1 where
    d: "delete_data a rd path dtype test ovr rsn
          (emit (ThreadStarted (thread_prefix @ last_component path)) w) = (r, rd1, w1)"
    by (cases "delete_data a rd path dtype test ovr rsn
          (emit (ThreadStarted (thread_prefix @ last_component path)) w)")
  from delete_data_dry_store[OF d assms(2)] have "same_store w w1" by simp
  with d assms(1) show ?thesis
    by (cases r) (auto simp: threaded_delete_data_def)
qed

lemma remove_run_step_dry:
  assumes "remove_run_step a n dl frc rsn hl hr i s = (r, s')"
      and "\<not> production a" and "same_store w0 (snd s)"
  shows "same_store w0 (snd s')"
proof -
  obtain rd w where s: "s = (rd, w)" by (cases s)
  obtain rd' w' where s': "s' = (rd', w')" by (cases s')
  have d: "same_store v v'"
    if "delete_data a rd0 p t True f rsn v = (r0, rd1, v')" for rd0 p t f v r0 rd1 v'
    using delete_data_dry_store[OF that] by simp
  have t: "same_store v v'"
    if "threaded_delete_data a rd0 p t True f rsn v = (rd1, v')" for rd0 p t f v rd1 v'
    using threaded_delete_data_dry[OF that] by simp
  have "same_store w w'"
    using assms(1,2) unfolding s s' remove_run_step_def Let_def
    by (auto split: if_splits option.splits prod.splits sum.splits
             dest!: d t dest: same_store_trans)
  with assms(3) s s' show ?thesis by (auto dest: same_store_trans)
qed

lemma remove_run_from_host_dry:
  assumes "remove_run_from_host a n dl frc rsn w = (r, w')" and "\<not> production a"
  shows "same_store w w'"
proof (cases "find_one (number_on_host_query n (if \<not> dl then hostname a else ''daq'')) w")
  case None
  with assms show ?thesis by (auto simp: remove_run_from_host_def)
next
  case (Some rd)
  obtain hl hr where c: "check_rundoc_for_live_and_raw rd = (hl, hr)"
    by (cases "check_rundoc_for_live_and_raw rd")
  obtain r1 rd' w1 where
    f: "for_each (remove_run_step a n dl frc rsn hl hr) [0..<length (data rd)] (rd, w)
          = (r1, rd', w1)"
    by (cases "for_each (remove_run_step a n dl frc rsn hl hr) [0..<length (data rd)] (rd, w)")
  have "same_store w (snd (rd', w1))"
    by (rule for_each_preserves[where P="\<lambda>s. same_store w (snd s)", OF _ f])
       (auto intro: remove_run_step_dry[OF _ assms(2)])
  with Some c f assms(1) show ?thesis by (simp add: remove_run_from_host_def)
qed


lemma clean_ceph_dry:
  assumes "\<not> production a"
  shows "\<exists>r w'. clean_ceph (Suc depth) a w = Some (r, w') \<and> same_store w w'"
proof -
  have r: "same_store v v'"
    if "remove_run_from_host a n True (force a) ''clean ceph'' v = (r0, v')" for n v r0 v'
    using remove_run_from_host_dry[OF that assms] .
  show ?thesis
    using assms
    by (auto simp: Let_def split: option.splits prod.splits sum.splits dest!: r)
qed

lemma abandoned_loop_dry:
  assumes "abandoned_loop a dl rds i i_max w = (r, w')" and "\<not> production a"
  shows "same_store w w'"
  using assms(1)
proof (induction rds arbitrary: i w)
  case Nil
  then show ?case by simp
next
  case (Cons rd rds)
  obtain r1 w1 where
    h: "remove_run_from_host a (number rd) dl True ''run abandonned''
          (emit (Log Info ''clean_abandoned: remove data associated to run'') w) = (r1, w1)"
    by (cases "remove_run_from_host a (number rd) dl True ''run abandonned''
          (emit (Log Info ''clean_abandoned: remove data associated to run'') w)")
  from remove_run_from_host_dry[OF h assms(2)] have s: "same_store w w1" by simp
  show ?case
  proof (cases "i \<ge> i_max")
    case True
    with Cons.prems show ?thesis by simp
  next
    case False
    show ?thesis
    proof (cases r1)
      case (Inl e)
      with False h s Cons.prems show ?thesis by simp
    next
      case (Inr u)
      with False h Cons.prems have "abandoned_loop a dl rds (i + 1) i_max w1 = (r, w')" by simp
      from Cons.IH[OF this] s show ?thesis by (rule same_store_trans[rotated])
    qed
  qed
qed

lemma clean_abandoned_unfold:
  "clean_abandoned (Suc depth) dl a w =
     (case (if \<not> dl then
              (case find_one (abandoned_query a) (set_state ''clean_abandoned'' w) of
                 None \<Rightarrow> None | Some rd \<Rightarrow> Some [rd])
            else Some (find_all (abandoned_live_query (set_state ''clean_abandoned'' w))
                         (set_state ''clean_abandoned'' w))) of
        None \<Rightarrow>
          Some (Inr (), emit (Log Info ''clean_abandoned: No more matches in rundoc'')
                          (set_state ''clean_abandoned'' w))
      | Some rds \<Rightarrow>
          (case abandoned_loop a dl rds 0 (if ask_confirm a then 1 else 5)
                  (set_state ''clean_abandoned'' w) of
             (Inl e, w1) \<Rightarrow> Some (Inl e, w1)
           | (Inr i, w1) \<Rightarrow>
               if i = 0 then
                 Some (Inr (),
                       emit (Log Info ''clean_abandoned: No more live_data matches in rundoc'') w1)
               else if production a then
                 clean_abandoned depth dl a (if dl then wait_on_delete_thread w1 else w1)
               else Some (Inr (), w1)))"
  by (simp add: Let_def)

lemma clean_abandoned_dry:
  assumes "\<not> production a"
  shows "\<exists>r w'. clean_abandoned (Suc depth) dl a w = Some (r, w') \<and> same_store w w'"
proof -
  define w0 where "w0 = set_state ''clean_abandoned'' w"
  define sel where "sel = (if \<not> dl then
              (case find_one (abandoned_query a) w0 of None \<Rightarrow> None | Some rd \<Rightarrow> Some [rd])
            else Some (find_all (abandoned_live_query w0) w0))"
  note u = clean_abandoned_unfold[of depth dl a w, folded w0_def, folded sel_def]
  show ?thesis
  proof (cases sel)
    case None
    with u show ?thesis by (simp add: w0_def)
  next
    case (Some rds)
    obtain r1 w1 where
      l: "abandoned_loop a dl rds 0 (if ask_confirm a then 1 else 5) w0 = (r1, w1)"
      by (cases "abandoned_loop a dl rds 0 (if ask_confirm a then 1 else 5) w0")
    from abandoned_loop_dry[OF l assms] have s: "same_store w w1" by (simp add: w0_def)
    show ?thesis
    proof (cases r1)
      case (Inl e)
      with u Some l s show ?thesis by simp
    next
      case (Inr i)
      with u Some l s assms show ?thesis by simp
    qed
  qed
qed

lemma non_latest_step_dry:
  assumes "non_latest_step a i s = (r, s')"
      and "\<not> production a" and "same_store w0 (snd s)"
  shows "same_store w0 (snd s')"
proof -
  obtain rd w where s: "s = (rd, w)" by (cases s)
  obtain rd' w' where s': "s' = (rd', w')" by (cases s')
  have d: "same_store v v'"
    if "delete_data a rd0 p t True False ''non latest'' v = (r0, rd1, v')" for rd0 p t v r0 rd1 v'
    using delete_data_dry_store[OF that] by simp
  have "same_store w w'"
    using assms(1,2) unfolding s s' non_latest_step_def Let_def
    by (auto split: if_splits option.splits dest!: d)
  with assms(3) s s' show ?thesis by (auto dest: same_store_trans)
qed

lemma non_latest_loop_dry:
  assumes "non_latest_loop a rds w = (r, w')" and "\<not> production a"
  shows "same_store w w'"
  using assms(1)
proof (induction rds arbitrary: w)
  case Nil
  then show ?case by simp
next
  case (Cons rd rds)
  show ?case
  proof (cases "raw_records_elsewhere (hostname a) (data rd)")
    case (Inl e)
    with Cons.prems show ?thesis by simp
  next
    case (Inr have_rr)
    obtain r1 rd' w1 where
      f: "for_each (non_latest_step a) [0..<length (data rd)] (rd, w) = (r1, rd', w1)"
      by (cases "for_each (non_latest_step a) [0..<length (data rd)] (rd, w)")
    have s: "same_store w (snd (rd', w1))"
      by (rule for_each_preserves[where P="\<lambda>s. same_store w (snd s)", OF _ f])
         (auto intro: non_latest_step_dry[OF _ assms(2)])
    show ?thesis
    proof (cases "have_rr")
      case False
      with Inr Cons.prems show ?thesis by simp
    next
      case True
      show ?thesis
      proof (cases r1)
        case (Inl e)
        with True Inr f s Cons.prems show ?thesis by simp
      next
        case r1: (Inr u)
        with True Inr f Cons.prems have "non_latest_loop a rds w1 = (r, w')" by simp
        from Cons.IH[OF this] s show ?thesis by (auto dest: same_store_trans)
      qed
    qed
  qed
qed

lemma clean_non_latest_dry:
  assumes "\<not> production a"
  shows "same_store w (snd (clean_non_latest a w))"
proof -
  obtain r w' where
    l: "non_latest_loop a
          (find_all (non_latest_query a (set_state ''clean_non_latest'' w))
             (set_state ''clean_non_latest'' w))
          (set_state ''clean_non_latest'' w) = (r, w')"
    by (cases "non_latest_loop a
          (find_all (non_latest_query a (set_state ''clean_non_latest'' w))
             (set_state ''clean_non_latest'' w))
          (set_state ''clean_non_latest'' w)")
  from non_latest_loop_dry[OF l assms] l show ?thesis
    by (simp add: clean_non_latest_def Let_def)
qed

lemma unregistered_step_dry:
  assumes "unregistered_step a base run_id folder s = (r, s')"
      and "\<not> production a" and "same_store w0 (snd s)"
  shows "same_store w0 (snd s')"
proof -
  obtain dl w where s: "s = (dl, w)" by (cases s)
  obtain dl' w' where s': "s' = (dl', w')" by (cases s')
  have "same_store w w'"
    using assms(1,2) unfolding s s' unregistered_step_def Let_def
    by (auto split: if_splits option.splits prod.splits sum.splits)
  with assms(3) s s' show ?thesis by (auto dest: same_store_trans)
qed

lemma remove_unregistered_run_dry:
  assumes "\<not> production a"
  shows "same_store w (snd (remove_unregistered_run a base run_id checked w))"
proof (cases "checked")
  case False
  then show ?thesis by (simp add: remove_unregistered_run_def)
next
  case True
  define w1 where "w1 = log_warning ''No data found! Double checking'' Warning (Some run_id) w"
  show ?thesis
  proof (cases "os_listdir base w1")
    case (Inl e)
    with True show ?thesis by (simp add: remove_unregistered_run_def w1_def Let_def)
  next
    case (Inr folders)
    obtain r dl w2 where
      f: "for_each (unregistered_step a base run_id) folders (False, w1) = (r, dl, w2)"
      by (cases "for_each (unregistered_step a base run_id) folders (False, w1)")
    have "same_store w (snd (dl, w2))"
      by (rule for_each_preserves[where P="\<lambda>s. same_store w (snd s)", OF _ f])
         (auto intro: unregistered_step_dry[OF _ assms] simp: w1_def)
    with True Inr f show ?thesis
      by (cases r) (simp_all add: remove_unregistered_run_def w1_def[symmetric] Let_def)
  qed
qed

lemma remove_if_unregistered_dry:
  assumes "\<not> production a"
  shows "same_store w (snd (remove_if_unregistered a n dl clean_from w))"
proof -
  have "same_store w (snd (remove_unregistered_run a base run_id True
                             (log_warning m p r w)))" for base run_id m p r
    using remove_unregistered_run_dry[OF assms, of "log_warning m p r w" base run_id True]
    by simp
  then show ?thesis
    by (simp add: remove_if_unregistered_def Let_def)
qed

lemma cleaning_sequence_dry:
  assumes "cleaning_sequence (Suc depth) a w = Some (r, w')" and "\<not> production a"
  shows "same_store w w'"
proof -
  obtain r1 w1 where c: "clean_ceph (Suc depth) a w = Some (r1, w1)" "same_store w w1"
    using clean_ceph_dry[OF assms(2)] by blast
  have ab: "\<exists>r2 w2. clean_abandoned (Suc depth) dl a v = Some (r2, w2) \<and> same_store v w2"
    for dl v
    using clean_abandoned_dry[OF assms(2)] by blast
  have nl: "same_store v (snd (clean_non_latest a v))" for v
    using clean_non_latest_dry[OF assms(2)] .
  obtain r2 w2 where
    s1: "(if hostname a = eb_can_clean_ceph then
              (case clean_ceph (Suc depth) a w of
                 None \<Rightarrow> None
               | Some (Inl e, w1) \<Rightarrow> Some (Inl e, w1)
               | Some (Inr u, w1) \<Rightarrow> clean_abandoned (Suc depth) True a w1)
            else Some (Inr (), w)) = Some (r2, w2)" and s1s: "same_store w w2"
  proof (cases "hostname a = eb_can_clean_ceph")
    case False
    then show ?thesis using that[of "Inr ()" w] by simp
  next
    case True
    show ?thesis
    proof (cases r1)
      case (Inl e)
      with True c that[of "Inl e" w1] show ?thesis by simp
    next
      case (Inr u)
      from ab[of True w1] obtain r2 w2 where
        "clean_abandoned (Suc depth) True a w1 = Some (r2, w2)" "same_store w1 w2" by blast
      with True c Inr that[of r2 w2] show ?thesis
        by (auto dest: same_store_trans simp del: clean_ceph.simps clean_abandoned.simps)
    qed
  qed
  show ?thesis
  proof (cases r2)
    case (Inl e)
    with s1 s1s assms(1) show ?thesis
      by (simp add: cleaning_sequence_def del: clean_ceph.simps clean_abandoned.simps)
  next
    case (Inr u)
    from ab[of False w2] obtain r3 w3 where
      a3: "clean_abandoned (Suc depth) False a w2 = Some (r3, w3)" and s3: "same_store w2 w3"
      by blast
    show ?thesis
    proof (cases r3)
      case (Inl e)
      with Inr s1 a3 assms(1) have "w' = w3"
        by (simp add: cleaning_sequence_def del: clean_ceph.simps clean_abandoned.simps)
      with s1s s3 show ?thesis by (auto dest: same_store_trans)
    next
      case r3: (Inr u')
      with Inr s1 a3 assms(1) have "w' = snd (clean_non_latest a w3)"
        by (auto simp add: cleaning_sequence_def simp del: clean_ceph.simps clean_abandoned.simps)
      with s1s s3 nl[of w3] show ?thesis by (auto dest: same_store_trans)
    qed
  qed
qed

lemma main_loop_dry:
  assumes "\<And>v r v'. body v = Some (r, v') \<Longrightarrow> same_store v v'"
      and "main_loop rounds body a w = Some (r, w')"
  shows "same_store w w'"
  using assms(2)
proof (induction rounds arbitrary: w)
  case 0
  then show ?case by simp
next
  case (Suc rounds)
  from Suc.prems obtain r1 w1 where b: "body w = Some (r1, w1)"
    by (cases "body w") auto
  from assms(1)[OF b] have s: "same_store w w1" .
  show ?case
  proof (cases r1)
    case (Inl e)
    show ?thesis
    proof (cases "stops_ajax e")
      case True
      with Inl b s Suc.prems show ?thesis by auto
    next
      case False
      with Inl b Suc.prems have "main_loop rounds body a (restart_after w1) = Some (r, w')"
        by simp
      from Suc.IH[OF this] s show ?thesis
        by (auto simp: restart_after_def dest: same_store_trans)
    qed
  next
    case (Inr u)
    show ?thesis
    proof (cases "production a")
      case False
      with Inr b s Suc.prems show ?thesis by auto
    next
      case True
      with Inr b Suc.prems have
        "main_loop rounds body a
           (time_sleep nap_time (emit (Log Info ''Loop finished, take a nap'') w1)) = Some (r, w')"
        by simp
      from Suc.IH[OF this] s show ?thesis by (auto dest: same_store_trans)
    qed
  qed
qed


text \<open>
  C2. With \<open>test\<close> true, \<open>delete_data\<close> leaves the disk and the runs collection as they
  are. Without \<^verbatim>\<open>--production\<close> the same holds for \<open>delete_data\<close> with any \<open>test\<close>,
  for \<^verbatim>\<open>_rmtree\<close>, for the delete thread, for \<open>remove_run_from_host\<close>, for the modes
  \<open>clean_ceph\<close>, \<open>clean_abandoned\<close>, \<open>clean_non_latest\<close> and
  \<open>clean_high_level_data\<close>, for \<open>remove_if_unregistered\<close> (which moves folders in
  production only) and for the loop of \<^verbatim>\<open>--clean all\<close>, whatever the runs collection holds;
  \<open>clean_ceph\<close> and \<open>clean_abandoned\<close> then return without calling themselves.
\<close>

theorem dry_run_changes_nothing:
  assumes "\<not> production a"
  shows "same_store w (snd (snd (delete_data a' rd path dtype True ovr rsn w))) \<and>
         same_store w (snd (snd (delete_data a rd path dtype test ovr rsn w))) \<and>
         same_store w (snd (ajax_rmtree a path w)) \<and>
         same_store w (snd (threaded_delete_data a rd path dtype test ovr rsn w)) \<and>
         same_store w (snd (remove_run_from_host a n dl frc rsn w)) \<and>
         (\<exists>r w'. clean_ceph (Suc depth) a w = Some (r, w') \<and> same_store w w') \<and>
         (\<exists>r w'. clean_abandoned (Suc depth) dl a w = Some (r, w') \<and> same_store w w') \<and>
         same_store w (snd (clean_non_latest a w)) \<and>
         same_store w (snd (clean_high_level_data a w)) \<and>
         same_store w (snd (remove_if_unregistered a n dl clean_from w)) \<and>
         (\<forall>r w'. main_ajax_all rounds (Suc depth) a w = Some (r, w') \<longrightarrow> same_store w w')"
proof -
  have 1: "same_store w (snd (snd (delete_data a' rd path dtype True ovr rsn w)))"
    using delete_data_dry_store[of a' rd path dtype True ovr rsn w]
    by (cases "delete_data a' rd path dtype True ovr rsn w") simp
  have 2: "same_store w (snd (snd (delete_data a rd path dtype test ovr rsn w)))"
    using delete_data_dry_store[of a rd path dtype test ovr rsn w] assms
    by (cases "delete_data a rd path dtype test ovr rsn w") simp
  have 3: "same_store w (snd (ajax_rmtree a path w))"
    using ajax_rmtree_dry[of a path w] ajax_rmtree_frame[of a path w] assms
    by (cases "ajax_rmtree a path w") (simp add: same_store_def)
  have 4: "same_store w (snd (threaded_delete_data a rd path dtype test ovr rsn w))"
    using threaded_delete_data_dry[of a rd path dtype test ovr rsn w] assms
    by (cases "threaded_delete_data a rd path dtype test ovr rsn w") simp
  have 5: "same_store w (snd (remove_run_from_host a n dl frc rsn w))"
    using remove_run_from_host_dry[of a n dl frc rsn w] assms
    by (cases "remove_run_from_host a n dl frc rsn w") simp
  have 6: "same_store w (snd (clean_high_level_data a w))"
    by (simp add: clean_high_level_data_def)
  have 7: "\<forall>r w'. main_ajax_all rounds (Suc depth) a w = Some (r, w') \<longrightarrow> same_store w w'"
    unfolding main_ajax_all_def
    using main_loop_dry[of "cleaning_sequence (Suc depth) a" rounds a w]
      cleaning_sequence_dry[OF _ assms]
    by blast
  from 1 2 3 4 5 6 7 clean_ceph_dry[OF assms, of depth w]
    clean_abandoned_dry[OF assms, of depth dl w] clean_non_latest_dry[OF assms, of w]
    remove_if_unregistered_dry[OF assms, of w n dl clean_from]
  show ?thesis by blast
qed

lemma scenario_B_dry_run:
  "fst (remove_run_from_host eb1_dry 24399 False False ''manual'' scenario_B_world) = Inr ()"
  "events (snd (remove_run_from_host eb1_dry 24399 False False ''manual'' scenario_B_world)) =
     [Log Info ''delete data at'', Log Info ''Deleting data'', Log Info ''deleting finished'',
      Log Info ''prevent from being deleted. Do so with --delete_live'']"
  by (simp_all add: remove_run_from_host_def remove_run_step_def find_one_def
        number_on_host_query_def has_data_host_def delete_data_eval scenario_eval
        eb1_dry_def scenario_B_world_def)

theorem dry_run_changes_nothing_witness:
  "\<not> production eb1_dry \<and>
   fst (remove_run_from_host eb1_dry 24399 False False ''manual'' scenario_B_world) = Inr () \<and>
   same_store scenario_B_world
     (snd (remove_run_from_host eb1_dry 24399 False False ''manual'' scenario_B_world)) \<and>
   same_store scenario_B_world
     (snd (snd (delete_data eb1_dry scenario_B ''/data/eb1/24399-raw'' ''raw_records'' False
                  False ''manual'' scenario_B_world))) \<and>
   same_store scenario_B_world
     (snd (remove_if_unregistered eb1_dry 123 False (pre_folder eb1_dry) scenario_B_world))"
proof -
  have h: "\<not> production eb1_dry" by (simp add: eb1_dry_def eb1_def)
  from dry_run_changes_nothing[OF h, where w=scenario_B_world and n=24399 and dl=False
      and frc=False and rsn="''manual''"]
  have 1: "same_store scenario_B_world
     (snd (remove_run_from_host eb1_dry 24399 False False ''manual'' scenario_B_world))"
    by blast
  from dry_run_changes_nothing[OF h, where w=scenario_B_world and rd=scenario_B
      and path="''/data/eb1/24399-raw''" and dtype="''raw_records''" and test=False
      and ovr=False and rsn="''manual''"]
  have 2: "same_store scenario_B_world
     (snd (snd (delete_data eb1_dry scenario_B ''/data/eb1/24399-raw'' ''raw_records'' False
                  False ''manual'' scenario_B_world)))"
    by blast
  from dry_run_changes_nothing[OF h, where w=scenario_B_world and n=123 and dl=False
      and clean_from="pre_folder eb1_dry"]
  have 3: "same_store scenario_B_world
     (snd (remove_if_unregistered eb1_dry 123 False (pre_folder eb1_dry) scenario_B_world))"
    by blast
  from h 1 2 3 scenario_B_dry_run(1) show ?thesis by blast
qed

section \<open>Abandoned runs are always forced\<close>

lemma args_force:
  "production (a\<lparr>force := f\<rparr>) = production a"
  "ask_confirm (a\<lparr>force := f\<rparr>) = ask_confirm a"
  "hostname (a\<lparr>force := f\<rparr>) = hostname a"
  by simp_all

lemma confirm_force:
  "confirm (a\<lparr>force := f\<rparr>) = confirm a"
  unfolding confirm_def args_force by (rule refl)

lemma ajax_rmtree_force:
  "ajax_rmtree (a\<lparr>force := f\<rparr>) = ajax_rmtree a"
  unfolding ajax_rmtree_def confirm_force args_force by (rule refl)

lemma delete_from_disk_force:
  "delete_from_disk (a\<lparr>force := f\<rparr>) = delete_from_disk a"
  unfolding delete_from_disk_def ajax_rmtree_force by (rule refl)

lemma mark_deleted_force:
  "mark_deleted (a\<lparr>force := f\<rparr>) = mark_deleted a"
  unfolding mark_deleted_def args_force by (rule refl)

lemma change_rundoc_force:
  "change_rundoc (a\<lparr>force := f\<rparr>) = change_rundoc a"
  unfolding change_rundoc_def mark_deleted_force confirm_force args_force by (rule refl)

lemma delete_data_force:
  "delete_data (a\<lparr>force := f\<rparr>) = delete_data a"
  unfolding delete_data_def delete_from_disk_force change_rundoc_force
  by (rule refl)

lemma threaded_delete_data_force:
  "threaded_delete_data (a\<lparr>force := f\<rparr>) = threaded_delete_data a"
  unfolding threaded_delete_data_def delete_data_force
  by (rule refl)

lemma remove_run_step_force:
  "remove_run_step (a\<lparr>force := f\<rparr>) = remove_run_step a"
  unfolding remove_run_step_def delete_data_force threaded_delete_data_force args_force
  by (rule refl)

lemma remove_run_from_host_force:
  "remove_run_from_host (a\<lparr>force := f\<rparr>) = remove_run_from_host a"
  unfolding remove_run_from_host_def remove_run_step_force args_force
  by (rule refl)

lemma abandoned_loop_force:
  "abandoned_loop (a\<lparr>force := f\<rparr>) dl rds i i_max w = abandoned_loop a dl rds i i_max w"
  by (induction rds arbitrary: i w)
     (simp_all add: remove_run_from_host_force cong: prod.case_cong sum.case_cong)

lemma clean_abandoned_force:
  "clean_abandoned depth dl (a\<lparr>force := f\<rparr>) w = clean_abandoned depth dl a w"
proof (induction depth arbitrary: w)
  case 0
  then show ?case by simp
next
  case (Suc depth)
  show ?case
    unfolding clean_abandoned_unfold abandoned_loop_force Suc.IH abandoned_query_def args_force
    by (rule refl)
qed

lemma guard_reports_frame [simp]:
  "guard_reports (emit (Log p m) w) = guard_reports w"
  "guard_reports (emit (ThreadStarted t) w) = guard_reports w"
  "guard_reports (emit (ThreadDied e) w) = guard_reports w"
  "guard_reports (emit (SetState st) w) = guard_reports w"
  "guard_reports (emit WaitOnDeleteThread w) = guard_reports w"
  "guard_reports (set_state st w) = guard_reports w"
  "guard_reports (wait_on_delete_thread w) = guard_reports w"
  "guard_reports (time_sleep n w) = guard_reports w"
  "guard_reports (log_warning m Info r w) = guard_reports w"
  "guard_reports (w\<lparr>run_coll := c\<rparr>) = guard_reports w"
  "guard_reports (w\<lparr>fs := d\<rparr>) = guard_reports w"
  "guard_reports (w\<lparr>stdin := i\<rparr>) = guard_reports w"
  by (simp_all add: guard_reports_def emit_def set_state_def wait_on_delete_thread_def
        time_sleep_def log_warning_def)

lemma confirm_quiet:
  "confirm a w = (r, w') \<Longrightarrow> guard_reports w' = guard_reports w"
  by (auto simp: confirm_def split: if_splits prod.splits)

lemma ajax_rmtree_quiet:
  assumes "ajax_rmtree a path w = (r, w')"
  shows "guard_reports w' = guard_reports w"
  using assms
  by (auto simp: ajax_rmtree_def shutil_rmtree_def Let_def
           split: if_splits prod.splits sum.splits dest!: confirm_quiet)

lemma delete_from_disk_quiet:
  assumes "delete_from_disk a path test w = (r, w')"
  shows "guard_reports w' = guard_reports w"
  using assms
  by (auto simp: delete_from_disk_def Let_def
           split: if_splits prod.splits sum.splits dest!: ajax_rmtree_quiet)

lemma change_rundoc_quiet:
  assumes "change_rundoc a rd path dtype test rsn w = (r, rd', w')"
  shows "guard_reports w' = guard_reports w"
  using assms
  by (auto simp: change_rundoc_def Let_def
           split: if_splits prod.splits sum.splits dest!: confirm_quiet)

lemma delete_data_forced:
  assumes "delete_data a rd path dtype test True rsn w = (r, rd', w')"
  shows "guard_reports w' = guard_reports w \<and> r \<noteq> Inl (ValueError essential_copy)"
proof -
  have g: "low_data_check rd dtype test True w = (Inr (), w)"
    by (simp add: low_data_check_cases)
  have "fst (delete_data a rd path dtype test True rsn w) \<noteq> Inl (ValueError essential_copy)"
    unfolding delete_data_essential_iff by (simp add: g)
  with assms have 1: "r \<noteq> Inl (ValueError essential_copy)" by simp
  have 2: "guard_reports w' = guard_reports w"
  proof (cases rule: delete_data_stages[of rd dtype test True w a path rsn])
    case (guard e w1)
    with g show ?thesis by simp
  next
    case (disk u w1 e w2)
    with g assms delete_from_disk_quiet[OF disk(2)] show ?thesis by simp
  next
    case (rundoc u w1 u' w2)
    with assms have "change_rundoc a rd path dtype test rsn w2 = (r, rd', w')" by simp
    from change_rundoc_quiet[OF this] delete_from_disk_quiet[OF rundoc(2)] rundoc(1) g
    show ?thesis by simp
  qed
  from 1 2 show ?thesis by simp
qed

lemma threaded_delete_data_forced:
  assumes "threaded_delete_data a rd path dtype test True rsn w = (rd', w')"
  shows "guard_reports w' = guard_reports w"
proof -
  obtain r rd1 w1 where
    d: "delete_data a rd path dtype test True rsn
          (emit (ThreadStarted (thread_prefix @ last_component path)) w) = (r, rd1, w1)"
    by (cases "delete_data a rd path dtype test True rsn
          (emit (ThreadStarted (thread_prefix @ last_component path)) w)")
  from delete_data_forced[OF d] have "guard_reports w1 = guard_reports w" by simp
  with d assms show ?thesis
    by (cases r) (auto simp: threaded_delete_data_def)
qed

lemma remove_run_step_forced:
  assumes "remove_run_step a n dl True rsn hl hr i s = (r, s')"
      and "guard_reports (snd s) = g"
  shows "guard_reports (snd s') = g \<and> r \<noteq> Inl (ValueError essential_copy)"
proof -
  obtain rd w where s: "s = (rd, w)" by (cases s)
  obtain rd' w' where s': "s' = (rd', w')" by (cases s')
  have d: "guard_reports v' = guard_reports v \<and> r0 \<noteq> Inl (ValueError essential_copy)"
    if "delete_data a rd0 p t b True rsn v = (r0, rd1, v')" for rd0 p t b v r0 rd1 v'
    using delete_data_forced[OF that] .
  have t: "guard_reports v' = guard_reports v"
    if "threaded_delete_data a rd0 p t b True rsn v = (rd1, v')" for rd0 p t b v rd1 v'
    using threaded_delete_data_forced[OF that] .
  have "guard_reports w' = guard_reports w \<and> r \<noteq> Inl (ValueError essential_copy)"
    using assms(1) unfolding s s' remove_run_step_def Let_def
    by (auto split: if_splits option.splits prod.splits sum.splits dest!: d t)
  with assms(2) s s' show ?thesis by simp
qed


lemma remove_run_from_host_forced:
  assumes "remove_run_from_host a n dl True rsn w = (r, w')"
  shows "guard_reports w' = guard_reports w \<and> r \<noteq> Inl (ValueError essential_copy)"
proof (cases "find_one (number_on_host_query n (if \<not> dl then hostname a else ''daq'')) w")
  case None
  with assms show ?thesis by (auto simp: remove_run_from_host_def)
next
  case (Some rd)
  obtain hl hr where c: "check_rundoc_for_live_and_raw rd = (hl, hr)"
    by (cases "check_rundoc_for_live_and_raw rd")
  obtain r1 rd' w1 where
    f: "for_each (remove_run_step a n dl True rsn hl hr) [0..<length (data rd)] (rd, w)
          = (r1, rd', w1)"
    by (cases "for_each (remove_run_step a n dl True rsn hl hr) [0..<length (data rd)] (rd, w)")
  have g: "guard_reports (snd (rd', w1)) = guard_reports w"
    by (rule for_each_preserves[where P="\<lambda>s. guard_reports (snd s) = guard_reports w", OF _ f])
       (auto dest: remove_run_step_forced)
  have e: "r1 \<noteq> Inl (ValueError essential_copy)"
  proof
    assume "r1 = Inl (ValueError essential_copy)"
    with f for_each_error[of "remove_run_step a n dl True rsn hl hr"
        "\<lambda>e. e \<noteq> ValueError essential_copy"]
      remove_run_step_forced[of a n dl rsn hl hr]
    show False by blast
  qed
  from Some c f g e assms show ?thesis by (simp add: remove_run_from_host_def)
qed

lemma abandoned_loop_forced:
  assumes "abandoned_loop a dl rds i i_max w = (r, w')"
  shows "guard_reports w' = guard_reports w \<and> r \<noteq> Inl (ValueError essential_copy)"
  using assms
proof (induction rds arbitrary: i w)
  case Nil
  then show ?case by auto
next
  case (Cons rd rds)
  obtain r1 w1 where
    h: "remove_run_from_host a (number rd) dl True ''run abandonned''
          (emit (Log Info ''clean_abandoned: remove data associated to run'') w) = (r1, w1)"
    by (cases "remove_run_from_host a (number rd) dl True ''run abandonned''
          (emit (Log Info ''clean_abandoned: remove data associated to run'') w)")
  from remove_run_from_host_forced[OF h]
  have g: "guard_reports w1 = guard_reports w" "r1 \<noteq> Inl (ValueError essential_copy)"
    by simp_all
  show ?case
  proof (cases "i \<ge> i_max")
    case True
    with Cons.prems show ?thesis by auto
  next
    case False
    show ?thesis
    proof (cases r1)
      case (Inl e)
      with False h g Cons.prems show ?thesis by auto
    next
      case (Inr u)
      with False h Cons.prems have "abandoned_loop a dl rds (i + 1) i_max w1 = (r, w')" by simp
      from Cons.IH[OF this] g show ?thesis by simp
    qed
  qed
qed

lemma clean_abandoned_forced:
  "clean_abandoned depth dl a w = Some (r, w') \<Longrightarrow>
     guard_reports w' = guard_reports w \<and> r \<noteq> Inl (ValueError essential_copy)"
proof (induction depth arbitrary: w)
  case 0
  then show ?case by simp
next
  case (Suc depth)
  define w0 where "w0 = set_state ''clean_abandoned'' w"
  define sel where "sel = (if \<not> dl then
              (case find_one (abandoned_query a) w0 of None \<Rightarrow> None | Some rd \<Rightarrow> Some [rd])
            else Some (find_all (abandoned_live_query w0) w0))"
  note u = clean_abandoned_unfold[of depth dl a w, folded w0_def, folded sel_def]
  show ?case
  proof (cases sel)
    case None
    with u Suc.prems show ?thesis by (auto simp: w0_def)
  next
    case (Some rds)
    obtain r1 w1 where
      l: "abandoned_loop a dl rds 0 (if ask_confirm a then 1 else 5) w0 = (r1, w1)"
      by (cases "abandoned_loop a dl rds 0 (if ask_confirm a then 1 else 5) w0")
    from abandoned_loop_forced[OF l]
    have g: "guard_reports w1 = guard_reports w" "r1 \<noteq> Inl (ValueError essential_copy)"
      by (simp_all add: w0_def)
    show ?thesis
    proof (cases r1)
      case (Inl e)
      with u Some l g Suc.prems show ?thesis by auto
    next
      case (Inr i)
      show ?thesis
      proof (cases "i \<noteq> 0 \<and> production a")
        case True
        with u Some l Inr Suc.prems have
          "clean_abandoned depth dl a (if dl then wait_on_delete_thread w1 else w1) = Some (r, w')"
          by simp
        from Suc.IH[OF this] g show ?thesis by (simp split: if_splits)
      next
        case False
        with u Some l Inr g Suc.prems show ?thesis by (auto split: if_splits)
      qed
    qed
  qed
qed

text \<open>
  C10. \<open>clean_abandoned\<close> does not look at \<^verbatim>\<open>--force\<close>: it gives the same result whatever
  the flag is. For each run of its loop it calls \<open>remove_run_from_host\<close> with \<open>force\<close>
  true, and therefore the copy-count check is never made: a call of \<open>clean_abandoned\<close> that
  returns has added no fatal report of the check and has not raised its error.
\<close>

theorem clean_abandoned_forces:
  "clean_abandoned depth dl (a\<lparr>force := f\<rparr>) w = clean_abandoned depth dl a w \<and>
   abandoned_loop a dl [rd] 0 (Suc k) w =
     (case remove_run_from_host a (number rd) dl True ''run abandonned''
             (emit (Log Info ''clean_abandoned: remove data associated to run'') w) of
        (Inl e, w1) \<Rightarrow> (Inl e, w1)
      | (Inr u, w1) \<Rightarrow> (Inr 1, w1)) \<and>
   (\<forall>r w'. clean_abandoned depth dl a w = Some (r, w') \<longrightarrow>
      r \<noteq> Inl (ValueError essential_copy) \<and> guard_reports w' = guard_reports w)"
proof -
  have "abandoned_loop a dl [rd] 0 (Suc k) w =
     (case remove_run_from_host a (number rd) dl True ''run abandonned''
             (emit (Log Info ''clean_abandoned: remove data associated to run'') w) of
        (Inl e, w1) \<Rightarrow> (Inl e, w1)
      | (Inr u, w1) \<Rightarrow> (Inr 1, w1))"
    by (simp split: prod.splits sum.splits)
  with clean_abandoned_force[where depth=depth and dl=dl and a=a and f=f and w=w]
    clean_abandoned_forced[where depth=depth and dl=dl and a=a and w=w]
  show ?thesis by blast
qed



lemma abandoned_world_run:
  "clean_abandoned (Suc (Suc 0)) False eb1 abandoned_world =
     Some (Inr (),
           \<lparr>fs = [],
            run_coll = [abandoned_run
                         \<lparr>deleted_data :=
                            [raw_eb1\<lparr>location := None, protocol := None, at := Some 1000000,
                               deleted_by := Some ''ajax.eb1'',
                               reason := Some ''run abandonned''\<rparr>],
                          data := []\<rparr>],
            clock = 1000000, stdin = [],
            events = [SetState ''clean_abandoned'',
                      Log Info ''clean_abandoned: remove data associated to run'',
                      Log Info ''delete data at'', Log Info ''Deleting data'',
                      Log Info ''deleting finished'', Log Info ''changing data field in rundoc'',
                      SetState ''clean_abandoned'',
                      Log Info ''clean_abandoned: No more matches in rundoc'']\<rparr>)"
  apply (subst clean_abandoned_unfold)
  apply (simp add: set_state_def find_one_def abandoned_query_def has_data_host_def
        remove_run_from_host_def remove_run_step_def number_on_host_query_def
        delete_data_eval scenario_eval abandoned_world_def abandoned_run_def
        del: clean_abandoned.simps)
  apply (subst clean_abandoned_unfold)
  apply (simp add: set_state_def find_one_def abandoned_query_def has_data_host_def emit_def
        del: clean_abandoned.simps)
  done

theorem clean_abandoned_forces_witness:
  "\<not> force eb1 \<and>
   fst (low_data_check abandoned_run ''raw_records'' False False abandoned_world)
     = Inl (ValueError essential_copy) \<and>
   clean_abandoned (Suc (Suc 0)) False (eb1\<lparr>force := True\<rparr>) abandoned_world =
     clean_abandoned (Suc (Suc 0)) False eb1 abandoned_world \<and>
   fst (the (clean_abandoned (Suc (Suc 0)) False eb1 abandoned_world)) = Inr () \<and>
   map data (run_coll (snd (the (clean_abandoned (Suc (Suc 0)) False eb1 abandoned_world))))
     = [[]] \<and>
   guard_reports (snd (the (clean_abandoned (Suc (Suc 0)) False eb1 abandoned_world)))
     = guard_reports abandoned_world"
proof -
  have 1: "\<not> force eb1" by (simp add: eb1_def)
  have 2: "fst (low_data_check abandoned_run ''raw_records'' False False abandoned_world)
     = Inl (ValueError essential_copy)"
    by (simp add: low_data_check_cases abandoned_run_def scenario_eval sublist_code(3))
  note t = clean_abandoned_forces[where depth="Suc (Suc 0)" and dl=False and a=eb1
      and f=True and w=abandoned_world]
  from t have 3: "clean_abandoned (Suc (Suc 0)) False (eb1\<lparr>force := True\<rparr>) abandoned_world =
     clean_abandoned (Suc (Suc 0)) False eb1 abandoned_world"
    by (rule conjunct1)
  from t have "\<forall>r w'. clean_abandoned (Suc (Suc 0)) False eb1 abandoned_world = Some (r, w') \<longrightarrow>
      r \<noteq> Inl (ValueError essential_copy) \<and> guard_reports w' = guard_reports abandoned_world"
    by (intro conjunct2[OF conjunct2[OF t]])
  then have 4: "guard_reports (snd (the (clean_abandoned (Suc (Suc 0)) False eb1 abandoned_world)))
     = guard_reports abandoned_world"
    unfolding abandoned_world_run by simp
  have 5: "fst (the (clean_abandoned (Suc (Suc 0)) False eb1 abandoned_world)) = Inr ()"
    "map data (run_coll (snd (the (clean_abandoned (Suc (Suc 0)) False eb1 abandoned_world))))
     = [[]]"
    unfolding abandoned_world_run by simp_all
  from 1 2 3 4 5 show ?thesis by blast
qed

section \<open>Cleaning ceph until nothing is left\<close>










































end
